theory Spec2Isabelle
  imports Main
begin

section \<open>Terms, types and results\<close>

text \<open>
  The term and type system is an external collaborator of the code under study. A node is
  either the null node, a leaf (a variable or constant with its kind, its unique id, its
  optional name and its type) or an application of a kind to its ordered children.
  For \<open>APPLY_UF\<close> the operator is stored as the first child, the way the code passes it
  to \<open>mkNode\<close>.
\<close>

datatype Kind =
    AND | OR | NOT | IMPLIES | EQUAL | FORALL | EXISTS | LAMBDA
  | BOUND_VAR_LIST | APPLY_UF | BOUND_VARIABLE | VARIABLE | SKOLEM | CONST_VALUE
  | BAG_MAKE | BAG_COUNT | BAG_MAP | BAG_PARTITION | OTHER_KIND nat

datatype TypeNode =
    NullType
  | BoolType
  | IntType
  | SortType string
  | BagType TypeNode
  | FunctionType "TypeNode list" TypeNode
  | DatatypeType nat

datatype Node =
    NullNode
  | Leaf Kind nat "string option" TypeNode
  | App Kind "Node list"

fun getKind :: "Node \<Rightarrow> Kind option" where
  "getKind NullNode = None"
| "getKind (Leaf k _ _ _) = Some k"
| "getKind (App k _) = Some k"

fun children :: "Node \<Rightarrow> Node list" where
  "children (App _ cs) = cs"
| "children _ = []"

fun isBag :: "TypeNode \<Rightarrow> bool" where
  "isBag (BagType _) = True"
| "isBag _ = False"

fun isNullType :: "TypeNode \<Rightarrow> bool" where
  "isNullType NullType = True"
| "isNullType _ = False"

text \<open>The errors the code can raise: every throw and every failed assertion is a value.\<close>

datatype error =
    InternalError string
  | AssertionFailure string
  | LogicException string
  | ChildIndexOutOfRange
  | NullPointerDereference

text \<open>Diagnostics written to the warning and verbose channels.\<close>

datatype Output = Warning string | Verbose string

datatype Result = NONE | SAT | UNSAT | UNKNOWN

fun showResult :: "Result \<Rightarrow> string" where
  "showResult NONE = ''none''"
| "showResult SAT = ''sat''"
| "showResult UNSAT = ''unsat''"
| "showResult UNKNOWN = ''unknown''"

text \<open>
  What every component consults of the term layer: the type checker, the rewriter, and
  whether the build has assertions compiled in (\<open>Assert\<close> is checked only then;
  \<open>AlwaysAssert\<close> and \<open>InternalError\<close> are checked in every build).
\<close>

record TermEnv =
  getType :: "Node \<Rightarrow> TypeNode"
  rewrite :: "Node \<Rightarrow> Node"
  assertionsOn :: bool

text \<open>\<open>n[i]\<close>: reading a child that is not there is an error of its own.\<close>

definition child :: "Node \<Rightarrow> nat \<Rightarrow> error + Node" where
  "child n i = (if i < length (children n) then Inr (children n ! i) else Inl ChildIndexOutOfRange)"

text \<open>
  \<open>m[k] = v\<close> on a \<open>std::map\<close>, kept as an association list with one entry per key. The
  list keeps the order of first insertion; the order in which a \<open>std::map\<close> or a set of
  nodes is walked depends on node identifiers that are not represented here, so sets and
  maps of nodes are walked in list order.
\<close>

fun setEntry :: "'k \<Rightarrow> 'v \<Rightarrow> ('k \<times> 'v) list \<Rightarrow> ('k \<times> 'v) list" where
  "setEntry k v [] = [(k, v)]"
| "setEntry k v ((k', v') # kvs) =
     (if k = k' then (k, v) # kvs else (k', v') # setEntry k v kvs)"

section \<open>The theory model as the sequence of calls it received\<close>

text \<open>
  \<open>TheoryModel\<close> is not part of the code under study. It is represented by the calls made
  on it, in order; whatever it answers to a query is a function of those calls, supplied
  by the caller of each operation below. \<open>ClearEqualityEngine\<close> stands for the pop and
  push of the context the model's equality engine lives in.
\<close>

text \<open>
  The theory identifiers the code names, and the others. The enumeration itself is not
  part of the code under study; the identifiers from \<open>THEORY_FIRST\<close> up to (excluding)
  \<open>THEORY_LAST\<close>, in order, are supplied by the environment.
\<close>

datatype TheoryId = THEORY_BUILTIN | THEORY_BOOL | THEORY_BAGS | THEORY_OTHER nat

datatype ModelCall =
    ResetModel
  | ClearEqualityEngine
  | CollectModelInfo TheoryId "Node list"
  | AssertPredicate Node bool
  | AssertEquality Node Node bool
  | AssertSkeleton Node
  | BuilderBuildModel
  | TheoryPostProcess TheoryId
  | BuilderPostProcess bool

type_synonym TheoryModel = "ModelCall list"

section \<open>ModelManager\<close>

text \<open>
  What the model manager consults: the logic, the theory engine, the propositional
  engine, the model builder and the answers of the model object.
\<close>

record ModelEnv =
  theoryIds :: "TheoryId list"
  isTheoryEnabled :: "TheoryId \<Rightarrow> bool"
  theoryOf :: "TheoryId \<Rightarrow> bool"
  termSetOf :: "TheoryId \<Rightarrow> Node list"
  collectModelInfoOk :: "TheoryModel \<Rightarrow> TheoryId \<Rightarrow> Node list \<Rightarrow> bool"
  getBooleanVariables :: "Node list"
  hasValue :: "Node \<Rightarrow> bool option"
  assertPredicateOk :: "TheoryModel \<Rightarrow> Node \<Rightarrow> bool \<Rightarrow> bool"
  builderBuildModelOk :: "TheoryModel \<Rightarrow> bool"
  produceModels :: bool

record ModelManager =
  d_modelBuilt :: bool
  d_modelBuiltSuccess :: bool
  d_model :: TheoryModel
  rmEnabled :: bool

definition resetModel :: "ModelManager \<Rightarrow> ModelManager" where
  "resetModel mm =
     mm\<lparr>d_modelBuilt := False, d_modelBuiltSuccess := False,
        d_model := d_model mm @ [ResetModel]\<rparr>"

text \<open>
  The loop of \<open>collectModelBooleanVariables\<close> over the Boolean variables of the
  propositional engine. \<open>hasValue\<close> answers \<open>None\<close> when the engine reports no value;
  the code then sets the value to false before asserting it.
\<close>

fun collectBoolVarsLoop :: "ModelEnv \<Rightarrow> Node list \<Rightarrow> TheoryModel \<Rightarrow> bool \<times> TheoryModel" where
  "collectBoolVarsLoop env [] m = (True, m)"
| "collectBoolVarsLoop env (var # rest) m =
     (let value = (case hasValue env var of None \<Rightarrow> False | Some b \<Rightarrow> b) in
      if \<not> assertPredicateOk env m var value
      then (False, m @ [AssertPredicate var value])
      else collectBoolVarsLoop env rest (m @ [AssertPredicate var value]))"

definition collectModelBooleanVariables :: "ModelEnv \<Rightarrow> TheoryModel \<Rightarrow> bool \<times> TheoryModel" where
  "collectModelBooleanVariables env m = collectBoolVarsLoop env (getBooleanVariables env) m"

text \<open>The loop of \<open>prepareModel\<close> over the theories; it stops at the first failure.\<close>

fun collectTheories :: "ModelEnv \<Rightarrow> TheoryId list \<Rightarrow> TheoryModel \<Rightarrow> bool \<times> TheoryModel" where
  "collectTheories env [] m = (True, m)"
| "collectTheories env (tid # rest) m =
     (if \<not> isTheoryEnabled env tid then collectTheories env rest m
      else if tid = THEORY_BOOL \<or> tid = THEORY_BUILTIN then collectTheories env rest m
      else
        (let termSet = termSetOf env tid;
             m' = m @ [CollectModelInfo tid termSet] in
         if \<not> collectModelInfoOk env m tid termSet then (False, m')
         else collectTheories env rest m'))"

definition prepareModel :: "ModelEnv \<Rightarrow> TheoryModel \<Rightarrow> bool \<times> TheoryModel" where
  "prepareModel env m =
     (case collectTheories env (theoryIds env) (m @ [ClearEqualityEngine]) of
        (False, m1) \<Rightarrow> (False, m1)
      | (True, m1) \<Rightarrow>
          (case collectModelBooleanVariables env m1 of
             (False, m2) \<Rightarrow> (False, m2)
           | (True, m2) \<Rightarrow> (True, m2)))"

definition finishBuildModel :: "ModelEnv \<Rightarrow> TheoryModel \<Rightarrow> bool \<times> TheoryModel" where
  "finishBuildModel env m =
     (if \<not> builderBuildModelOk env m then (False, m @ [BuilderBuildModel])
      else (True, m @ [BuilderBuildModel]))"

definition buildModel :: "ModelEnv \<Rightarrow> ModelManager \<Rightarrow> bool \<times> ModelManager" where
  "buildModel env mm =
     (if d_modelBuilt mm then (d_modelBuiltSuccess mm, mm)
      else
        (let mm1 = mm\<lparr>rmEnabled := False\<rparr>;
             mm2 = mm1\<lparr>d_modelBuilt := True, d_modelBuiltSuccess := False\<rparr> in
         case prepareModel env (d_model mm2) of
           (False, m1) \<Rightarrow>
             (let mm3 = mm2\<lparr>d_model := m1\<rparr>; mm4 = mm3\<lparr>rmEnabled := True\<rparr>
              in (d_modelBuiltSuccess mm4, mm4))
         | (True, m1) \<Rightarrow>
             (case finishBuildModel env m1 of
                (ok, m2) \<Rightarrow>
                  (let mm3 = mm2\<lparr>d_model := m2, d_modelBuiltSuccess := ok\<rparr>;
                       mm4 = mm3\<lparr>rmEnabled := True\<rparr>
                   in (d_modelBuiltSuccess mm4, mm4)))))"

definition isModelBuilt :: "ModelManager \<Rightarrow> bool" where
  "isModelBuilt mm = d_modelBuilt mm"

fun postProcessTheories :: "ModelEnv \<Rightarrow> TheoryId list \<Rightarrow> TheoryModel \<Rightarrow> TheoryModel" where
  "postProcessTheories env [] m = m"
| "postProcessTheories env (tid # rest) m =
     (if \<not> theoryOf env tid then postProcessTheories env rest m
      else postProcessTheories env rest (m @ [TheoryPostProcess tid]))"

definition postProcessModel :: "ModelEnv \<Rightarrow> bool \<Rightarrow> ModelManager \<Rightarrow> error + ModelManager" where
  "postProcessModel env incomplete mm =
     (if \<not> d_modelBuilt mm then Inr mm
      else if \<not> d_modelBuiltSuccess mm then Inl (AssertionFailure ''d_modelBuiltSuccess'')
      else if \<not> produceModels env then Inr mm
      else
        Inr (mm\<lparr>d_model :=
               postProcessTheories env (theoryIds env) (d_model mm) @ [BuilderPostProcess incomplete]\<rparr>))"

text \<open>A concrete environment for evaluation: two Boolean atoms, one of them unassigned.\<close>

definition atomP :: Node where
  "atomP = Leaf VARIABLE 1 (Some ''p'') BoolType"

definition atomQ :: Node where
  "atomQ = Leaf VARIABLE 2 (Some ''q'') BoolType"

definition envUnassigned :: ModelEnv where
  "envUnassigned =
     \<lparr>theoryIds = [THEORY_BUILTIN, THEORY_BOOL, THEORY_OTHER 2, THEORY_BAGS],
      isTheoryEnabled = (\<lambda>t. t = THEORY_BOOL \<or> t = THEORY_OTHER 2),
      theoryOf = (\<lambda>t. t = THEORY_BOOL \<or> t = THEORY_OTHER 2),
      termSetOf = (\<lambda>_. []),
      collectModelInfoOk = (\<lambda>_ _ _. True),
      getBooleanVariables = [atomP, atomQ],
      hasValue = (\<lambda>n. if n = atomP then Some True else None),
      assertPredicateOk = (\<lambda>_ _ _. True),
      builderBuildModelOk = (\<lambda>_. True),
      produceModels = True\<rparr>"

definition envAssignedFalse :: ModelEnv where
  "envAssignedFalse = envUnassigned\<lparr>hasValue := (\<lambda>n. if n = atomP then Some True else Some False)\<rparr>"

definition envBuildFails :: ModelEnv where
  "envBuildFails = envUnassigned\<lparr>builderBuildModelOk := (\<lambda>_. False)\<rparr>"

definition freshManager :: ModelManager where
  "freshManager = \<lparr>d_modelBuilt = False, d_modelBuiltSuccess = False, d_model = [], rmEnabled = True\<rparr>"

section \<open>Properties of ModelManager\<close>

lemma buildModel_false_flags:
  assumes "buildModel env mm = (False, mm')"
  shows "d_modelBuilt mm' \<and> \<not> d_modelBuiltSuccess mm'"
  using assms
  by (auto simp: buildModel_def Let_def split: if_splits prod.splits bool.splits)

text \<open>
  C10. \<open>postProcessModel\<close> called while no build has been started this round
  (\<open>d_modelBuilt\<close> is false) returns normally and leaves the whole manager state as it
  was; called on the state left by a \<open>buildModel\<close> call that returned failure, it stops
  with a failed assertion instead of returning.
\<close>

theorem postProcessModel_not_built_or_failed:
  "(\<not> d_modelBuilt mm \<longrightarrow> postProcessModel env incomplete mm = Inr mm) \<and>
   (buildModel env mm = (False, mm') \<longrightarrow>
      postProcessModel env incomplete mm' = Inl (AssertionFailure ''d_modelBuiltSuccess''))"
proof (intro conjI impI)
  assume "\<not> d_modelBuilt mm"
  then show "postProcessModel env incomplete mm = Inr mm"
    by (simp add: postProcessModel_def)
next
  assume "buildModel env mm = (False, mm')"
  then have "d_modelBuilt mm' \<and> \<not> d_modelBuiltSuccess mm'"
    by (rule buildModel_false_flags)
  then show "postProcessModel env incomplete mm' = Inl (AssertionFailure ''d_modelBuiltSuccess'')"
    by (simp add: postProcessModel_def)
qed

theorem postProcessModel_not_built_or_failed_witness:
  "\<not> d_modelBuilt freshManager \<and>
   postProcessModel envBuildFails False freshManager = Inr freshManager \<and>
   fst (buildModel envBuildFails freshManager) = False \<and>
   postProcessModel envBuildFails False (snd (buildModel envBuildFails freshManager)) =
     Inl (AssertionFailure ''d_modelBuiltSuccess'')"
proof -
  have nb: "\<not> d_modelBuilt freshManager"
    by (simp add: freshManager_def)
  have "builderBuildModelOk envBuildFails m = False" for m
    by (simp add: envBuildFails_def)
  then have f: "fst (buildModel envBuildFails freshManager) = False"
    by (simp add: buildModel_def freshManager_def finishBuildModel_def Let_def
        split: prod.splits bool.splits)
  then have b: "buildModel envBuildFails freshManager =
      (False, snd (buildModel envBuildFails freshManager))"
    by (metis prod.collapse)
  show ?thesis
    using postProcessModel_not_built_or_failed
      [of freshManager envBuildFails False "snd (buildModel envBuildFails freshManager)"]
      nb f b
    by simp
qed

lemma collectBoolVarsLoop_hasValue_default:
  "collectBoolVarsLoop (env\<lparr>hasValue := h\<rparr>) vars m =
   collectBoolVarsLoop
     (env\<lparr>hasValue := (\<lambda>v. Some (case h v of None \<Rightarrow> False | Some b \<Rightarrow> b))\<rparr>) vars m"
  by (induction vars arbitrary: m) (simp_all add: Let_def)

text \<open>
  C3 (as amended). For a Boolean variable the propositional engine reports no value for,
  the value asserted into the model is false. The model receives the very same
  \<open>assertPredicate(var, false)\<close> call as for a variable the engine set to false:
  replacing every "no value" answer of the engine by an explicit "false" changes neither
  the outcome nor the produced model, so the model carries no mark of the default.
\<close>

theorem collectModelBooleanVariables_default_false:
  "(hasValue env var = None \<longrightarrow>
      collectBoolVarsLoop env (var # rest) m =
        (if assertPredicateOk env m var False
         then collectBoolVarsLoop env rest (m @ [AssertPredicate var False])
         else (False, m @ [AssertPredicate var False]))) \<and>
   collectModelBooleanVariables (env\<lparr>hasValue := h\<rparr>) m =
   collectModelBooleanVariables
     (env\<lparr>hasValue := (\<lambda>v. Some (case h v of None \<Rightarrow> False | Some b \<Rightarrow> b))\<rparr>) m"
  using collectBoolVarsLoop_hasValue_default
    [where env = env and h = h and vars = "getBooleanVariables env" and m = m]
  by (simp add: collectModelBooleanVariables_def Let_def)

theorem collectModelBooleanVariables_default_false_witness:
  "hasValue envUnassigned atomQ = None \<and>
   collectBoolVarsLoop envUnassigned [atomQ] [] = (True, [AssertPredicate atomQ False]) \<and>
   collectModelBooleanVariables (envUnassigned\<lparr>hasValue := (\<lambda>_. None)\<rparr>) [] =
   collectModelBooleanVariables (envUnassigned\<lparr>hasValue := (\<lambda>_. Some False)\<rparr>) []"
  using collectModelBooleanVariables_default_false
    [where env = envUnassigned and var = atomQ and rest = "[]" and m = "[]"
       and h = "\<lambda>_. None"]
  by (simp add: envUnassigned_def atomQ_def atomP_def)

text \<open>
  C3 (as stated) fails: with \<open>q\<close> unassigned in one engine and explicitly false in the
  other, the two produced models are the same sequence of assertions.
\<close>

theorem collectModelBooleanVariables_default_indistinguishable:
  "hasValue envUnassigned atomQ = None \<and>
   hasValue envAssignedFalse atomQ = Some False \<and>
   collectModelBooleanVariables envUnassigned [] =
     (True, [AssertPredicate atomP True, AssertPredicate atomQ False]) \<and>
   collectModelBooleanVariables envAssignedFalse [] =
     (True, [AssertPredicate atomP True, AssertPredicate atomQ False])"
  by (simp add: collectModelBooleanVariables_def envUnassigned_def envAssignedFalse_def
      atomP_def atomQ_def)

section \<open>TheoryBags: model values\<close>

text \<open>
  What the bags theory consults: its solver state and equality engine, the model's
  equality engine, and the bag utilities. The solver state is only read by the
  operations below.

  \<open>nodeTriePathPairProcess\<close> with the callback \<open>d_cpacb\<close> is not part of the code under
  study and is a parameter: it receives the terms added to one index (each with the
  representatives of its children) and the arity, and answers the pairs of applications
  that it hands to \<open>processCarePairArgs\<close>, in order.
\<close>

record BagsEnv = TermEnv +
  isLeafOf :: "Node \<Rightarrow> bool"
  stateGetRepresentative :: "Node \<Rightarrow> Node"
  getElementCountPairs :: "Node \<Rightarrow> (Node \<times> Node) list"
  modelGetRepresentative :: "TheoryModel \<Rightarrow> Node \<Rightarrow> Node"
  constructBagFromElements :: "TypeNode \<Rightarrow> (Node \<times> Node) list \<Rightarrow> Node"
  eeHasTerm :: "Node \<Rightarrow> bool"
  eeGetRepresentative :: "Node \<Rightarrow> Node"
  eeAreEqual :: "Node \<Rightarrow> Node \<Rightarrow> bool"
  stateAreEqual :: "Node \<Rightarrow> Node \<Rightarrow> bool"
  isTriggerTerm :: "Node \<Rightarrow> bool"
  nodeTriePathPairProcess :: "(Node \<times> Node list) list \<Rightarrow> nat \<Rightarrow> (Node \<times> Node) list"

text \<open>The map \<open>elementReps\<close> built from the element-count pairs that are in the term set.\<close>

definition elementRepsOf ::
  "BagsEnv \<Rightarrow> TheoryModel \<Rightarrow> (Node \<times> Node) list \<Rightarrow> (Node \<times> Node) list" where
  "elementRepsOf env m elements =
     fold (\<lambda>pair reps.
             setEntry (stateGetRepresentative env (fst pair))
                      (modelGetRepresentative env m (snd pair)) reps)
          elements []"

text \<open>
  The loop of \<open>collectModelValues\<close> over the term set. \<open>processedBags\<close> maps the
  representatives already handled to their constructed values.
\<close>

fun collectBagsLoop ::
  "BagsEnv \<Rightarrow> Node list \<Rightarrow> Node list \<Rightarrow> (Node \<times> Node) list \<Rightarrow> TheoryModel
     \<Rightarrow> (Node \<times> Node) list \<times> TheoryModel" where
  "collectBagsLoop env termSet [] processedBags m = (processedBags, m)"
| "collectBagsLoop env termSet (n # rest) processedBags m =
     (let tn = getType env n in
      if \<not> isBag tn then collectBagsLoop env termSet rest processedBags m
      else if \<not> isLeafOf env n then collectBagsLoop env termSet rest processedBags m
      else
        (let r = stateGetRepresentative env n in
         if map_of processedBags r \<noteq> None
         then collectBagsLoop env termSet rest processedBags m
         else
           (let solverElements = getElementCountPairs env r;
                elements = filter (\<lambda>pair. fst pair \<in> set termSet) solverElements;
                elementReps = elementRepsOf env m elements;
                constructedBag = rewrite env (constructBagFromElements env tn elementReps);
                m' = m @ [AssertEquality constructedBag n True, AssertSkeleton constructedBag]
            in collectBagsLoop env termSet rest (setEntry r constructedBag processedBags) m')))"

definition collectModelValues :: "BagsEnv \<Rightarrow> TheoryModel \<Rightarrow> Node list \<Rightarrow> bool \<times> TheoryModel" where
  "collectModelValues env m termSet = (True, snd (collectBagsLoop env termSet termSet [] m))"

text \<open>The terms the model was told a value for: the second argument of each \<open>assertEquality\<close>.\<close>

fun assignedTerms :: "ModelCall list \<Rightarrow> Node list" where
  "assignedTerms [] = []"
| "assignedTerms (AssertEquality c n b # cs) = n # assignedTerms cs"
| "assignedTerms (_ # cs) = assignedTerms cs"

section \<open>TheoryBags: care graph\<close>

datatype InferenceId = BAGS_CG_SPLIT

datatype CareEvent = AddCarePairArgs Node Node | Lemma Node InferenceId

fun lemmasOf :: "CareEvent list \<Rightarrow> Node list" where
  "lemmasOf [] = []"
| "lemmasOf (Lemma l _ # es) = l # lemmasOf es"
| "lemmasOf (_ # es) = lemmasOf es"

definition isCareArg :: "BagsEnv \<Rightarrow> Node \<Rightarrow> nat \<Rightarrow> error + bool" where
  "isCareArg env n a =
     (case child n a of
        Inl e \<Rightarrow> Inl e
      | Inr na \<Rightarrow>
          if isTriggerTerm env na then Inr True
          else if (getKind n = Some BAG_COUNT \<or> getKind n = Some BAG_MAKE) \<and> a = 0
                  \<and> isBag (getType env na)
          then Inr True
          else Inr False)"

definition eqNode :: "Node \<Rightarrow> Node \<Rightarrow> Node" where
  "eqNode x y = App EQUAL [x, y]"

definition notNode :: "Node \<Rightarrow> Node" where
  "notNode n = App NOT [n]"

definition orNode :: "Node \<Rightarrow> Node \<Rightarrow> Node" where
  "orNode a b = App OR [a, b]"

text \<open>The loop of \<open>processCarePairArgs\<close> over the child positions \<open>i\<close>.\<close>

fun carePairChildren :: "BagsEnv \<Rightarrow> Node \<Rightarrow> Node \<Rightarrow> nat list \<Rightarrow> error + CareEvent list" where
  "carePairChildren env a b [] = Inr []"
| "carePairChildren env a b (i # is) =
     (case child a i of Inl e \<Rightarrow> Inl e | Inr x \<Rightarrow>
      case child b i of Inl e \<Rightarrow> Inl e | Inr y \<Rightarrow>
      case (if \<not> eeAreEqual env x y then
              (case isCareArg env a i of Inl e \<Rightarrow> Inl e | Inr ca \<Rightarrow>
               case (if ca then isCareArg env b i else Inr False) of Inl e \<Rightarrow> Inl e | Inr cb \<Rightarrow>
                 if ca \<and> cb then
                   (if isBag (getType env x) then
                      (if assertionsOn env \<and> \<not> isBag (getType env y)
                       then Inl (AssertionFailure ''y.getType().isBag()'')
                       else Inr [Lemma (orNode (eqNode x y) (notNode (eqNode x y))) BAGS_CG_SPLIT])
                    else Inr [])
                 else Inr [])
            else Inr [])
      of Inl e \<Rightarrow> Inl e | Inr evs \<Rightarrow>
      case carePairChildren env a b is of Inl e \<Rightarrow> Inl e | Inr evs' \<Rightarrow> Inr (evs @ evs'))"

definition processCarePairArgs :: "BagsEnv \<Rightarrow> Node \<Rightarrow> Node \<Rightarrow> error + CareEvent list" where
  "processCarePairArgs env a b =
     (if getKind a \<noteq> Some BAG_COUNT \<and> stateAreEqual env a b then Inr []
      else
        (case carePairChildren env a b [0 ..< length (children a)] of
           Inl e \<Rightarrow> Inl e
         | Inr evs \<Rightarrow> Inr (AddCarePairArgs a b # evs)))"

fun processPairs :: "BagsEnv \<Rightarrow> (Node \<times> Node) list \<Rightarrow> error + CareEvent list" where
  "processPairs env [] = Inr []"
| "processPairs env ((a, b) # ps) =
     (case processCarePairArgs env a b of Inl e \<Rightarrow> Inl e | Inr evs \<Rightarrow>
      case processPairs env ps of Inl e \<Rightarrow> Inl e | Inr evs' \<Rightarrow> Inr (evs @ evs'))"

definition getBagElementType :: "TypeNode \<Rightarrow> error + TypeNode" where
  "getBagElementType t =
     (case t of BagType e \<Rightarrow> Inr e | _ \<Rightarrow> Inl (AssertionFailure ''isBag()''))"

fun anyCareArg :: "BagsEnv \<Rightarrow> Node \<Rightarrow> nat list \<Rightarrow> error + bool" where
  "anyCareArg env n [] = Inr False"
| "anyCareArg env n (j # js) =
     (case isCareArg env n j of Inl e \<Rightarrow> Inl e | Inr c \<Rightarrow>
      case anyCareArg env n js of Inl e \<Rightarrow> Inl e | Inr c' \<Rightarrow> Inr (c \<or> c'))"

text \<open>\<open>index[tn].addTerm(n, childrenReps)\<close>: one trie per element type, as the terms added.\<close>

fun addToIndex ::
  "TypeNode \<Rightarrow> Node \<times> Node list \<Rightarrow> (TypeNode \<times> (Node \<times> Node list) list) list
     \<Rightarrow> (TypeNode \<times> (Node \<times> Node list) list) list" where
  "addToIndex tn e [] = [(tn, [e])]"
| "addToIndex tn e ((tn', es) # rest) =
     (if tn = tn' then (tn', es @ [e]) # rest else (tn', es) # addToIndex tn e rest)"

text \<open>The loop that populates the indices for one kind; it also tracks \<open>arity\<close>.\<close>

fun populateIndex ::
  "BagsEnv \<Rightarrow> Kind \<Rightarrow> Node list \<Rightarrow> (TypeNode \<times> (Node \<times> Node list) list) list \<Rightarrow> nat
     \<Rightarrow> error + ((TypeNode \<times> (Node \<times> Node list) list) list \<times> nat)" where
  "populateIndex env k [] index arity = Inr (index, arity)"
| "populateIndex env k (n # ns) index arity =
     (if assertionsOn env \<and> \<not> eeHasTerm env n
      then Inl (AssertionFailure ''d_equalityEngine->hasTerm(n)'')
      else
        case (if k = BAG_MAKE then getBagElementType (getType env n)
              else (case child n 1 of Inl e \<Rightarrow> Inl e
                    | Inr n1 \<Rightarrow> getBagElementType (getType env n1)))
        of Inl e \<Rightarrow> Inl e | Inr tn \<Rightarrow>
        let childrenReps = map (eeGetRepresentative env) (children n) in
        case anyCareArg env n [0 ..< length (children n)] of Inl e \<Rightarrow> Inl e | Inr hasCareArg \<Rightarrow>
          if hasCareArg
          then populateIndex env k ns (addToIndex tn (n, childrenReps) index) (length childrenReps)
          else populateIndex env k ns index arity)"

fun processIndices ::
  "BagsEnv \<Rightarrow> nat \<Rightarrow> (TypeNode \<times> (Node \<times> Node list) list) list \<Rightarrow> error + CareEvent list" where
  "processIndices env arity [] = Inr []"
| "processIndices env arity ((tn, trie) # rest) =
     (case processPairs env (nodeTriePathPairProcess env trie arity) of Inl e \<Rightarrow> Inl e | Inr evs \<Rightarrow>
      case processIndices env arity rest of Inl e \<Rightarrow> Inl e | Inr evs' \<Rightarrow> Inr (evs @ evs'))"

text \<open>\<open>computeCareGraph\<close> over the entries of \<open>d_opMap\<close>, in order.\<close>

fun computeCareGraph :: "BagsEnv \<Rightarrow> (Kind \<times> Node list) list \<Rightarrow> error + CareEvent list" where
  "computeCareGraph env [] = Inr []"
| "computeCareGraph env ((k, terms) # rest) =
     (case (if k = BAG_MAKE \<or> k = BAG_COUNT then
              (case populateIndex env k terms [] 0 of Inl e \<Rightarrow> Inl e
               | Inr (index, arity) \<Rightarrow>
                   if arity > 0 then processIndices env arity index else Inr [])
            else Inr [])
      of Inl e \<Rightarrow> Inl e | Inr evs \<Rightarrow>
      case computeCareGraph env rest of Inl e \<Rightarrow> Inl e | Inr evs' \<Rightarrow> Inr (evs @ evs'))"

section \<open>Properties of TheoryBags\<close>

lemma map_fst_setEntry: "set (map fst (setEntry k v kvs)) = insert k (set (map fst kvs))"
  by (induction kvs) (force split: if_splits)+

lemma map_of_None_iff: "(map_of kvs k = None) = (k \<notin> set (map fst kvs))"
  by (simp add: map_of_eq_None_iff)

lemma assignedTerms_append: "assignedTerms (xs @ ys) = assignedTerms xs @ assignedTerms ys"
  by (induction xs rule: assignedTerms.induct) simp_all

lemma lemmasOf_append: "lemmasOf (xs @ ys) = lemmasOf xs @ lemmasOf ys"
  by (induction xs rule: lemmasOf.induct) simp_all

definition bagsLoopInv ::
  "BagsEnv \<Rightarrow> Node list \<Rightarrow> (Node \<times> Node) list \<Rightarrow> (Node \<times> Node) list \<Rightarrow> Node list \<Rightarrow> bool" where
  "bagsLoopInv env rest pb pb' as =
     (list_all (\<lambda>n. n \<in> set rest \<and> isBag (getType env n) \<and> isLeafOf env n) as \<and>
      distinct (map (stateGetRepresentative env) as) \<and>
      set (map (stateGetRepresentative env) as) \<inter> set (map fst pb) = {} \<and>
      set (map fst pb') = set (map fst pb) \<union> set (map (stateGetRepresentative env) as))"

lemma bagsLoopInv_step:
  assumes inv: "bagsLoopInv env rest (setEntry (stateGetRepresentative env n) c pb) pb' as"
    and n: "isBag (getType env n)" "isLeafOf env n"
      "stateGetRepresentative env n \<notin> set (map fst pb)"
  shows "bagsLoopInv env (n # rest) pb pb' (n # as)"
proof -
  let ?r = "stateGetRepresentative env n"
  let ?R = "set (map (stateGetRepresentative env) as)"
  from inv have 1: "list_all (\<lambda>k. k \<in> set rest \<and> isBag (getType env k) \<and> isLeafOf env k) as"
    and 2: "distinct (map (stateGetRepresentative env) as)"
    and 3: "?R \<inter> insert ?r (set (map fst pb)) = {}"
    and 4: "set (map fst pb') = insert ?r (set (map fst pb)) \<union> ?R"
    unfolding bagsLoopInv_def map_fst_setEntry by blast+
  have a: "list_all (\<lambda>k. k \<in> set (n # rest) \<and> isBag (getType env k) \<and> isLeafOf env k) (n # as)"
    using 1 n(1,2) by (simp add: list_all_iff)
  have b: "distinct (map (stateGetRepresentative env) (n # as))"
    using 2 3 by auto
  have c: "set (map (stateGetRepresentative env) (n # as)) \<inter> set (map fst pb) = {}"
    using 3 n(3) by auto
  have d: "set (map fst pb') = set (map fst pb) \<union> set (map (stateGetRepresentative env) (n # as))"
    using 4 by auto
  show ?thesis
    unfolding bagsLoopInv_def using a b c d by blast
qed

lemma bagsLoopInv_skip:
  assumes "bagsLoopInv env rest pb pb' as"
  shows "bagsLoopInv env (n # rest) pb pb' as"
  using assms unfolding bagsLoopInv_def by (auto simp: list_all_iff)

lemma collectBagsLoop_inv:
  "collectBagsLoop env ts rest pb m = (pb', m') \<Longrightarrow>
   \<exists>new. m' = m @ new \<and> bagsLoopInv env rest pb pb' (assignedTerms new)"
proof (induction rest arbitrary: pb m)
  case Nil
  then show ?case by (simp add: bagsLoopInv_def)
next
  case (Cons n rest)
  let ?r = "stateGetRepresentative env n"
  show ?case
  proof (cases "isBag (getType env n) \<and> isLeafOf env n \<and> ?r \<notin> set (map fst pb)")
    case False
    then have "collectBagsLoop env ts rest pb m = (pb', m')"
      using Cons.prems by (auto simp: Let_def map_of_None_iff split: if_splits)
    from Cons.IH [OF this] obtain new where
      "m' = m @ new \<and> bagsLoopInv env rest pb pb' (assignedTerms new)" ..
    then show ?thesis using bagsLoopInv_skip by blast
  next
    case True
    define c where "c = rewrite env (constructBagFromElements env (getType env n)
        (elementRepsOf env m (filter (\<lambda>pair. fst pair \<in> set ts) (getElementCountPairs env ?r))))"
    have "collectBagsLoop env ts rest (setEntry ?r c pb)
            (m @ [AssertEquality c n True, AssertSkeleton c]) = (pb', m')"
      using Cons.prems True by (simp add: Let_def map_of_None_iff c_def)
    from Cons.IH [OF this] obtain new where new:
      "m' = (m @ [AssertEquality c n True, AssertSkeleton c]) @ new \<and>
       bagsLoopInv env rest (setEntry ?r c pb) pb' (assignedTerms new)" ..
    let ?new = "[AssertEquality c n True, AssertSkeleton c] @ new"
    have a: "assignedTerms ?new = n # assignedTerms new" by simp
    have "m' = m @ ?new" using new by simp
    moreover have "bagsLoopInv env (n # rest) pb pb' (assignedTerms ?new)"
      unfolding a
    proof (rule bagsLoopInv_step)
      show "bagsLoopInv env rest (setEntry ?r c pb) pb' (assignedTerms new)"
        using new by simp
    qed (use True in simp_all)
    ultimately show ?thesis by blast
  qed
qed


lemma processCarePairArgs_count:
  assumes "eeAreEqual env A B" "getType env x = getType env y"
  shows "processCarePairArgs env (App BAG_COUNT [x, A]) (App BAG_COUNT [y, B]) =
     Inr (AddCarePairArgs (App BAG_COUNT [x, A]) (App BAG_COUNT [y, B]) #
          (if \<not> eeAreEqual env x y \<and> isBag (getType env x)
           then [Lemma (App OR [App EQUAL [x, y], App NOT [App EQUAL [x, y]]]) BAGS_CG_SPLIT]
           else []))"
proof -
  have u: "[0 ..< length (children (App BAG_COUNT [x, A]))] = [0, 1]"
    by (simp add: upt_rec)
  show ?thesis
    unfolding processCarePairArgs_def u
    using assms
    by (simp add: child_def isCareArg_def eqNode_def orNode_def notNode_def)
qed

lemma processPairs_same_no_lemma:
  assumes "processCarePairArgs env a b = Inr evs0" "lemmasOf evs0 = []"
    and "set ps \<subseteq> {(a, b)}"
  shows "\<exists>evs. processPairs env ps = Inr evs \<and> lemmasOf evs = []"
  using assms(3)
proof (induction ps)
  case Nil
  then show ?case by simp
next
  case (Cons p ps)
  then have p: "p = (a, b)" and "set ps \<subseteq> {(a, b)}" by auto
  with Cons.IH obtain evs where "processPairs env ps = Inr evs" "lemmasOf evs = []" by blast
  then show ?case using assms(1,2) p by (simp add: lemmasOf_append)
qed


lemma sum_case_id: "(case r of Inl e \<Rightarrow> Inl e | Inr v \<Rightarrow> Inr v) = r"
  by (cases r) simp_all

lemma computeCareGraph_count_pair:
  assumes ty: "getType env A = BagType t" "getType env B = BagType t"
      "getType env x = t" "getType env y = t" "isBag t"
    and ht: "eeHasTerm env (App BAG_COUNT [x, A])" "eeHasTerm env (App BAG_COUNT [y, B])"
  shows "computeCareGraph env [(BAG_COUNT, [App BAG_COUNT [x, A], App BAG_COUNT [y, B]])] =
     processPairs env
       (nodeTriePathPairProcess env
          [(App BAG_COUNT [x, A], [eeGetRepresentative env x, eeGetRepresentative env A]),
           (App BAG_COUNT [y, B], [eeGetRepresentative env y, eeGetRepresentative env B])] 2)"
proof -
  have u: "[0 ..< length (children (App BAG_COUNT [p, q]))] = [0, Suc 0]" for p q
    by (simp add: upt_rec)
  have ca: "anyCareArg env (App BAG_COUNT [x, A]) [0, Suc 0] = Inr True"
    using ty by (simp add: isCareArg_def child_def)
  have cb: "anyCareArg env (App BAG_COUNT [y, B]) [0, Suc 0] = Inr True"
    using ty by (simp add: isCareArg_def child_def)
  have pi: "populateIndex env BAG_COUNT [App BAG_COUNT [x, A], App BAG_COUNT [y, B]] [] 0 =
      Inr ([(t, [(App BAG_COUNT [x, A], [eeGetRepresentative env x, eeGetRepresentative env A]),
                 (App BAG_COUNT [y, B], [eeGetRepresentative env y, eeGetRepresentative env B])])], 2)"
    using ty ht by (simp add: u ca cb child_def getBagElementType_def Let_def del: anyCareArg.simps)
  show ?thesis
    by (cases "processPairs env
          (nodeTriePathPairProcess env
            [(App BAG_COUNT [x, A], [eeGetRepresentative env x, eeGetRepresentative env A]),
             (App BAG_COUNT [y, B], [eeGetRepresentative env y, eeGetRepresentative env B])] 2)")
      (simp_all add: pi del: populateIndex.simps)
qed


text \<open>
  A concrete bags environment for evaluation. Its traversal hands over every pair of
  distinct positions of an index, first position first.
\<close>

fun leafType :: "Node \<Rightarrow> TypeNode" where
  "leafType (Leaf _ _ _ t) = t"
| "leafType _ = NullType"

fun fixtureType :: "Node \<Rightarrow> TypeNode" where
  "fixtureType (Leaf _ _ _ t) = t"
| "fixtureType (App k cs) =
     (if k = BAG_COUNT then IntType
      else if k = LAMBDA then
        (case cs of
           [bvl, b] \<Rightarrow> FunctionType (map leafType (children bvl)) (leafType b)
         | _ \<Rightarrow> NullType)
      else (case k of OTHER_KIND _ \<Rightarrow> BagType IntType | _ \<Rightarrow> BoolType))"
| "fixtureType NullNode = NullType"

fun allPairs :: "'a list \<Rightarrow> ('a \<times> 'a) list" where
  "allPairs [] = []"
| "allPairs (x # xs) = map (Pair x) xs @ allPairs xs"

definition elemX :: Node where "elemX = Leaf VARIABLE 10 (Some ''x'') IntType"
definition elemY :: Node where "elemY = Leaf VARIABLE 11 (Some ''y'') IntType"
definition bagA :: Node where "bagA = Leaf VARIABLE 12 (Some ''A'') (BagType IntType)"
definition innerP :: Node where "innerP = Leaf VARIABLE 13 (Some ''P'') (BagType IntType)"
definition innerQ :: Node where "innerQ = Leaf VARIABLE 14 (Some ''Q'') (BagType IntType)"
definition outerC :: Node where
  "outerC = Leaf VARIABLE 15 (Some ''C'') (BagType (BagType IntType))"
definition unionPQ :: Node where "unionPQ = App (OTHER_KIND 7) [innerP, innerQ]"
definition countSk :: Node where "countSk = Leaf SKOLEM 16 None IntType"

definition bagsEnv0 :: BagsEnv where
  "bagsEnv0 =
     \<lparr>getType = fixtureType, rewrite = (\<lambda>n. n), assertionsOn = True,
      isLeafOf = (\<lambda>n. case n of Leaf _ _ _ _ \<Rightarrow> True | _ \<Rightarrow> False),
      stateGetRepresentative = (\<lambda>n. if n = innerQ then innerP else n),
      getElementCountPairs = (\<lambda>r. if r = innerP then [(elemX, countSk)] else []),
      modelGetRepresentative = (\<lambda>m n. n),
      constructBagFromElements = (\<lambda>tn reps. App BAG_MAKE (map fst reps @ map snd reps)),
      eeHasTerm = (\<lambda>_. True),
      eeGetRepresentative = (\<lambda>n. n),
      eeAreEqual = (\<lambda>a b. a = b),
      stateAreEqual = (\<lambda>a b. a = b),
      isTriggerTerm = (\<lambda>_. False),
      nodeTriePathPairProcess = (\<lambda>trie arity. allPairs (map fst trie))\<rparr>"

definition bagsEnvTrigger :: BagsEnv where
  "bagsEnvTrigger = bagsEnv0\<lparr>isTriggerTerm := (\<lambda>_. True)\<rparr>"

text \<open>
  C9. In every call to \<open>collectModelValues\<close> the call succeeds, the calls the model had
  already received are kept, and among the terms the model is given a value for (the
  \<open>assertEquality\<close> calls added) no two have the same representative in the solver
  state: a term whose representative was already processed is skipped. Every term given
  a value is a term of the term set that has bag type and is a leaf of the bags theory.
\<close>

theorem collectModelValues_one_value_per_representative:
  "fst (collectModelValues env m termSet) \<and>
   take (length m) (snd (collectModelValues env m termSet)) = m \<and>
   distinct (map (stateGetRepresentative env)
     (assignedTerms (drop (length m) (snd (collectModelValues env m termSet))))) \<and>
   list_all (\<lambda>n. n \<in> set termSet \<and> isBag (getType env n) \<and> isLeafOf env n)
     (assignedTerms (drop (length m) (snd (collectModelValues env m termSet))))"
proof -
  obtain pb' m' where l: "collectBagsLoop env termSet termSet [] m = (pb', m')"
    by (cases "collectBagsLoop env termSet termSet [] m") simp
  from collectBagsLoop_inv [OF l] obtain new where
    new: "m' = m @ new \<and> bagsLoopInv env termSet [] pb' (assignedTerms new)" ..
  have s: "snd (collectModelValues env m termSet) = m @ new"
    using l new by (simp add: collectModelValues_def)
  show ?thesis
    unfolding s using new by (simp add: collectModelValues_def bagsLoopInv_def)
qed

theorem collectModelValues_one_value_per_representative_witness:
  "collectModelValues bagsEnv0 [] [innerP, innerQ, elemX, unionPQ] =
     (True, [AssertEquality (App BAG_MAKE [elemX, countSk]) innerP True,
             AssertSkeleton (App BAG_MAKE [elemX, countSk])]) \<and>
   stateGetRepresentative bagsEnv0 innerQ = stateGetRepresentative bagsEnv0 innerP \<and>
   isBag (getType bagsEnv0 unionPQ) \<and> \<not> isLeafOf bagsEnv0 unionPQ \<and>
   \<not> isBag (getType bagsEnv0 elemX) \<and>
   distinct (map (stateGetRepresentative bagsEnv0)
     (assignedTerms (drop (length ([] :: ModelCall list))
        (snd (collectModelValues bagsEnv0 [] [innerP, innerQ, elemX, unionPQ])))))"
  using collectModelValues_one_value_per_representative
    [where env = bagsEnv0 and m = "[]" and termSet = "[innerP, innerQ, elemX, unionPQ]"]
  by (simp add: collectModelValues_def bagsEnv0_def innerP_def innerQ_def elemX_def
      unionPQ_def countSk_def elementRepsOf_def Let_def)


lemma processCarePairArgs_count_lemmas:
  assumes "eeAreEqual env A B" "getType env x = getType env y"
  shows "\<exists>evs. processCarePairArgs env (App BAG_COUNT [x, A]) (App BAG_COUNT [y, B]) = Inr evs \<and>
     lemmasOf evs =
       (if \<not> eeAreEqual env x y \<and> isBag (getType env x)
        then [orNode (eqNode x y) (notNode (eqNode x y))] else [])"
  using processCarePairArgs_count [OF assms]
  by (simp add: orNode_def eqNode_def notNode_def)

text \<open>
  C4 (as amended). Take two \<open>bag.count\<close> terms over bags that the equality engine knows
  equal, with element arguments of the same type. \<open>processCarePairArgs\<close> on the pair
  emits exactly one lemma, the case split \<open>(x = y) \<or> \<not> (x = y)\<close>, when the elements are
  themselves of bag type and not known equal; otherwise it emits none. For elements of
  bag type, \<open>computeCareGraph\<close> on the two terms emits exactly that one lemma when the
  elements are not known equal and the traversal hands the pair over once, and emits no
  lemma when the elements are known equal and the traversal hands over nothing but that
  pair.
\<close>

theorem computeCareGraph_count_split:
  "(eeAreEqual env A B \<and> getType env x = getType env y \<longrightarrow>
      (\<exists>evs. processCarePairArgs env (App BAG_COUNT [x, A]) (App BAG_COUNT [y, B]) = Inr evs \<and>
         lemmasOf evs =
           (if \<not> eeAreEqual env x y \<and> isBag (getType env x)
            then [orNode (eqNode x y) (notNode (eqNode x y))] else []))) \<and>
   (getType env A = BagType t \<and> getType env B = BagType t \<and>
    getType env x = t \<and> getType env y = t \<and> isBag t \<and> eeAreEqual env A B \<and>
    eeHasTerm env (App BAG_COUNT [x, A]) \<and> eeHasTerm env (App BAG_COUNT [y, B]) \<longrightarrow>
      (\<not> eeAreEqual env x y \<and>
       nodeTriePathPairProcess env
         [(App BAG_COUNT [x, A], [eeGetRepresentative env x, eeGetRepresentative env A]),
          (App BAG_COUNT [y, B], [eeGetRepresentative env y, eeGetRepresentative env B])] 2 =
         [(App BAG_COUNT [x, A], App BAG_COUNT [y, B])] \<longrightarrow>
         (\<exists>evs. computeCareGraph env
                  [(BAG_COUNT, [App BAG_COUNT [x, A], App BAG_COUNT [y, B]])] = Inr evs \<and>
            lemmasOf evs = [orNode (eqNode x y) (notNode (eqNode x y))])) \<and>
      (eeAreEqual env x y \<and>
       set (nodeTriePathPairProcess env
         [(App BAG_COUNT [x, A], [eeGetRepresentative env x, eeGetRepresentative env A]),
          (App BAG_COUNT [y, B], [eeGetRepresentative env y, eeGetRepresentative env B])] 2)
         \<subseteq> {(App BAG_COUNT [x, A], App BAG_COUNT [y, B])} \<longrightarrow>
         (\<exists>evs. computeCareGraph env
                  [(BAG_COUNT, [App BAG_COUNT [x, A], App BAG_COUNT [y, B]])] = Inr evs \<and>
            lemmasOf evs = [])))"
proof (intro conjI impI; (elim conjE)?)
  assume "eeAreEqual env A B" "getType env x = getType env y"
  then show "\<exists>evs. processCarePairArgs env (App BAG_COUNT [x, A]) (App BAG_COUNT [y, B]) = Inr evs \<and>
         lemmasOf evs =
           (if \<not> eeAreEqual env x y \<and> isBag (getType env x)
            then [orNode (eqNode x y) (notNode (eqNode x y))] else [])"
    by (rule processCarePairArgs_count_lemmas)
next
  let ?a = "App BAG_COUNT [x, A]" and ?b = "App BAG_COUNT [y, B]"
  let ?ps = "nodeTriePathPairProcess env
         [(?a, [eeGetRepresentative env x, eeGetRepresentative env A]),
          (?b, [eeGetRepresentative env y, eeGetRepresentative env B])] 2"
  assume ty: "getType env A = BagType t" "getType env B = BagType t"
      "getType env x = t" "getType env y = t" "isBag t"
    and eq: "eeAreEqual env A B"
    and ht: "eeHasTerm env ?a" "eeHasTerm env ?b"
    and ne: "\<not> eeAreEqual env x y"
    and ps: "?ps = [(?a, ?b)]"
  have g: "computeCareGraph env [(BAG_COUNT, [?a, ?b])] = processPairs env ?ps"
    using ty ht by (rule computeCareGraph_count_pair)
  from processCarePairArgs_count_lemmas [OF eq, of x y] ty ne
  obtain evs where "processCarePairArgs env ?a ?b = Inr evs"
    "lemmasOf evs = [orNode (eqNode x y) (notNode (eqNode x y))]"
    by auto
  then show "\<exists>evs. computeCareGraph env [(BAG_COUNT, [?a, ?b])] = Inr evs \<and>
      lemmasOf evs = [orNode (eqNode x y) (notNode (eqNode x y))]"
    unfolding g ps by simp
next
  let ?a = "App BAG_COUNT [x, A]" and ?b = "App BAG_COUNT [y, B]"
  let ?ps = "nodeTriePathPairProcess env
         [(?a, [eeGetRepresentative env x, eeGetRepresentative env A]),
          (?b, [eeGetRepresentative env y, eeGetRepresentative env B])] 2"
  assume ty: "getType env A = BagType t" "getType env B = BagType t"
      "getType env x = t" "getType env y = t" "isBag t"
    and eq: "eeAreEqual env A B"
    and ht: "eeHasTerm env ?a" "eeHasTerm env ?b"
    and e: "eeAreEqual env x y"
    and ps: "set ?ps \<subseteq> {(?a, ?b)}"
  have g: "computeCareGraph env [(BAG_COUNT, [?a, ?b])] = processPairs env ?ps"
    using ty ht by (rule computeCareGraph_count_pair)
  from processCarePairArgs_count_lemmas [OF eq, of x y] ty e
  obtain evs where "processCarePairArgs env ?a ?b = Inr evs" "lemmasOf evs = []"
    by auto
  from processPairs_same_no_lemma [OF this ps]
  show "\<exists>evs. computeCareGraph env [(BAG_COUNT, [?a, ?b])] = Inr evs \<and> lemmasOf evs = []"
    unfolding g .
qed

theorem computeCareGraph_count_split_witness:
  "eeAreEqual bagsEnv0 outerC outerC \<and>
   getType bagsEnv0 innerP = BagType IntType \<and> getType bagsEnv0 innerQ = BagType IntType \<and>
   getType bagsEnv0 outerC = BagType (BagType IntType) \<and>
   \<not> eeAreEqual bagsEnv0 innerP innerQ \<and>
   computeCareGraph bagsEnv0
     [(BAG_COUNT, [App BAG_COUNT [innerP, outerC], App BAG_COUNT [innerQ, outerC]])] =
     Inr [AddCarePairArgs (App BAG_COUNT [innerP, outerC]) (App BAG_COUNT [innerQ, outerC]),
          Lemma (orNode (eqNode innerP innerQ) (notNode (eqNode innerP innerQ))) BAGS_CG_SPLIT] \<and>
   eeAreEqual bagsEnv0 innerP innerP \<and>
   (\<exists>evs. computeCareGraph bagsEnv0
       [(BAG_COUNT, [App BAG_COUNT [innerP, outerC], App BAG_COUNT [innerP, outerC]])] = Inr evs \<and>
      lemmasOf evs = [])"
  using computeCareGraph_count_split
    [where env = bagsEnv0 and A = outerC and B = outerC and x = innerP and y = innerQ
       and t = "BagType IntType"]
    computeCareGraph_count_split
    [where env = bagsEnv0 and A = outerC and B = outerC and x = innerP and y = innerP
       and t = "BagType IntType"]
  by (simp add: bagsEnv0_def innerP_def innerQ_def outerC_def processCarePairArgs_def
      isCareArg_def child_def getBagElementType_def Let_def upt_rec)

text \<open>
  C4 (as stated) fails: for integer elements \<open>x\<close> and \<open>y\<close> that are not known equal,
  counted in the same bag, the pair is visited and no case-split lemma is emitted.
\<close>

theorem computeCareGraph_count_int_elements_no_split:
  "\<not> eeAreEqual bagsEnvTrigger elemX elemY \<and>
   computeCareGraph bagsEnvTrigger
     [(BAG_COUNT, [App BAG_COUNT [elemX, bagA], App BAG_COUNT [elemY, bagA]])] =
     Inr [AddCarePairArgs (App BAG_COUNT [elemX, bagA]) (App BAG_COUNT [elemY, bagA])] \<and>
   lemmasOf [AddCarePairArgs (App BAG_COUNT [elemX, bagA]) (App BAG_COUNT [elemY, bagA])] = []"
  by (simp add: bagsEnvTrigger_def bagsEnv0_def elemX_def elemY_def bagA_def
      processCarePairArgs_def isCareArg_def child_def getBagElementType_def Let_def upt_rec)

section \<open>SygusSolver\<close>

datatype CegisSampleMode = CEGIS_SAMPLE_NONE | CEGIS_SAMPLE_USE | CEGIS_SAMPLE_TRUST

record Options =
  sygusStream :: bool
  incrementalSolving :: bool
  checkSynthSol :: bool
  cegisSample :: CegisSampleMode
  sygusRecFun :: bool
  verbosity :: nat

datatype UnknownExplanation =
    REQUIRES_FULL_CHECK | INCOMPLETE | TIMEOUT | RESOURCEOUT | MEMOUT | INTERRUPTED
  | UNSUPPORTED | OTHER | REQUIRES_CHECK_AGAIN | UNKNOWN_REASON

datatype SynthStatus = NONE | SOLUTION | NO_SOLUTION | UNKNOWN

datatype SynthResult = SynthResult SynthStatus UnknownExplanation

fun synthStatus :: "SynthResult \<Rightarrow> SynthStatus" where
  "synthStatus (SynthResult st _) = st"

text \<open>A sygus datatype: its constructors (operator and argument types) and variable list.\<close>

record DTypeConstructor =
  sygusOp :: Node
  argTypes :: "TypeNode list"

record DType =
  isSygus :: bool
  constructors :: "DTypeConstructor list"
  sygusVarList :: Node

text \<open>A nested solver engine: its identity, what was defined and asserted, its options.\<close>

record SolverEngine =
  seId :: nat
  seDefinedFunctions :: "(Node \<times> Node list \<times> Node) list"
  seAssertions :: "Node list"
  seCheckSynthSol :: bool
  seSygusRecFun :: bool

record Assertions =
  assertionListDefinitions :: "Node list"
  assertionList :: "Node list"

text \<open>
  What the sygus solver consults beyond the term layer: the options, the preprocessor, the
  node algorithms, the sygus utilities, the datatypes, the printer, substitutions, and
  the answers of the engines it drives (the nested engines, the single-call driver on the
  main engine with the assertions it leaves behind, and the quantifiers engine of the main
  engine, which answers \<open>None\<close> when it is absent or has no solution).
\<close>

record SygusEnv = TermEnv +
  opts :: Options
  applySubstitutions :: "Node \<Rightarrow> Node"
  getVariables :: "Node \<Rightarrow> Node list"
  hasFreeVar :: "Node \<Rightarrow> bool"
  hasFreeVariablesScope :: "Node \<Rightarrow> Node list \<Rightarrow> bool"
  getFreeVariablesSygusType :: "TypeNode \<Rightarrow> Node list"
  mkSygusConjecture :: "Node list \<Rightarrow> Node \<Rightarrow> Node"
  mkSygusTermFor :: "Node \<Rightarrow> Node"
  mkAnd :: "Node list \<Rightarrow> Node"
  nodeToString :: "Node \<Rightarrow> string"
  substApply :: "(Node \<times> Node) list \<Rightarrow> Node \<Rightarrow> Node"
  dtypeTable :: "(nat \<times> DType) list"
  subsolverCheckSat :: "SolverEngine \<Rightarrow> Result"
  subsolverSynthSolutions :: "SolverEngine \<Rightarrow> (Node \<times> Node) list option"
  mainCheckSat :: "Node list \<Rightarrow> Result"
  driverAssertions :: "Assertions \<Rightarrow> Node list \<Rightarrow> Assertions"
  qeGetSynthSolutions :: "Node \<Rightarrow> (Node \<times> (Node \<times> Node) list) list option"

record SygusSolver =
  d_sygusVars :: "Node list"
  d_sygusConstraints :: "Node list"
  d_sygusAssumps :: "Node list"
  d_sygusFunSymbols :: "Node list"
  d_sygusConjectureStale :: bool
  d_subsolverCd :: "nat option"
  d_subsolver :: "SolverEngine option"
  d_conj :: Node
  d_trivialFuns :: "Node list"
  sygusArgumentListAttr :: "(Node \<times> Node) list"
  sygusTypeAttr :: "(Node \<times> TypeNode) list"
  nm_nextId :: nat
  nextEngineId :: nat

text \<open>The state the constructor leaves: nothing declared, the conjecture stale.\<close>

definition newSygusSolver :: SygusSolver where
  "newSygusSolver =
     \<lparr>d_sygusVars = [], d_sygusConstraints = [], d_sygusAssumps = [],
      d_sygusFunSymbols = [], d_sygusConjectureStale = True, d_subsolverCd = None,
      d_subsolver = None, d_conj = NullNode, d_trivialFuns = [],
      sygusArgumentListAttr = [], sygusTypeAttr = [], nm_nextId = 0, nextEngineId = 0\<rparr>"

definition declareSygusVar :: "Node \<Rightarrow> SygusSolver \<Rightarrow> SygusSolver" where
  "declareSygusVar var s = s\<lparr>d_sygusVars := d_sygusVars s @ [var]\<rparr>"

definition getDType :: "SygusEnv \<Rightarrow> TypeNode \<Rightarrow> DType option" where
  "getDType env t = (case t of DatatypeType i \<Rightarrow> map_of (dtypeTable env) i | _ \<Rightarrow> None)"

definition isSygusDatatype :: "SygusEnv \<Rightarrow> TypeNode \<Rightarrow> bool" where
  "isSygusDatatype env t = (case getDType env t of Some dt \<Rightarrow> isSygus dt | None \<Rightarrow> False)"

text \<open>
  \<open>checkDefinitionsSygusDt\<close>: the argument types of one constructor are appended to the
  work list unless already in \<open>processed\<close>.
\<close>

fun consArgs ::
  "SygusEnv \<Rightarrow> TypeNode list \<Rightarrow> TypeNode list \<times> TypeNode list \<Rightarrow> TypeNode list \<times> TypeNode list" where
  "consArgs env [] acc = acc"
| "consArgs env (tnc # tncs) (new, processed) =
     (if isSygusDatatype env tnc \<and> tnc \<notin> set processed
      then consArgs env tncs (new @ [tnc], tnc # processed)
      else consArgs env tncs (new, processed))"

fun checkCons ::
  "SygusEnv \<Rightarrow> Node \<Rightarrow> Node list \<Rightarrow> DTypeConstructor list \<Rightarrow> TypeNode list \<times> TypeNode list
     \<Rightarrow> error + (TypeNode list \<times> TypeNode list)" where
  "checkCons env fn scope [] acc = Inr acc"
| "checkCons env fn scope (c # cs) acc =
     (if hasFreeVariablesScope env (sygusOp c) scope
      then Inl (LogicException
             (''ERROR: cannot process term '' @ nodeToString env (sygusOp c)
              @ '' with free variables in grammar of '' @ nodeToString env fn))
      else checkCons env fn scope cs (consArgs env (argTypes c) acc))"

text \<open>
  The work list of \<open>checkDefinitionsSygusDt\<close> terminates: every type appended is a sygus
  datatype of the table that was not yet in \<open>processed\<close>.
\<close>

definition unprocessed :: "SygusEnv \<Rightarrow> TypeNode list \<Rightarrow> nat" where
  "unprocessed env processed =
     card (DatatypeType ` fst ` set (dtypeTable env) - set processed)"

lemma isSygusDatatype_in_table:
  "isSygusDatatype env t \<Longrightarrow> t \<in> DatatypeType ` fst ` set (dtypeTable env)"
  by (force simp: isSygusDatatype_def getDType_def image_iff
      split: TypeNode.splits option.splits dest!: map_of_SomeD)

lemma unprocessed_insert:
  assumes "isSygusDatatype env t" "t \<notin> set processed"
  shows "Suc (unprocessed env (t # processed)) = unprocessed env processed"
proof -
  let ?S = "DatatypeType ` fst ` set (dtypeTable env)"
  have f: "finite (?S - set processed)" by simp
  have m: "t \<in> ?S - set processed"
    using assms isSygusDatatype_in_table by auto
  have "?S - set (t # processed) = (?S - set processed) - {t}" by auto
  then show ?thesis
    unfolding unprocessed_def using f m
    by (metis card_Suc_Diff1)
qed

lemma consArgs_measure:
  "consArgs env tncs (new, processed) = (new', processed') \<Longrightarrow>
   unprocessed env processed' + length new' = unprocessed env processed + length new"
proof (induction tncs arbitrary: new processed)
  case Nil
  then show ?case by simp
next
  case (Cons tnc tncs)
  show ?case
  proof (cases "isSygusDatatype env tnc \<and> tnc \<notin> set processed")
    case True
    then have "consArgs env tncs (new @ [tnc], tnc # processed) = (new', processed')"
      using Cons.prems by simp
    from Cons.IH [OF this] unprocessed_insert [of env tnc processed] True
    show ?thesis by simp
  next
    case False
    then have "consArgs env tncs (new, processed) = (new', processed')"
      using Cons.prems by auto
    from Cons.IH [OF this] show ?thesis .
  qed
qed

lemma checkCons_measure:
  "checkCons env fn scope cs (new, processed) = Inr (new', processed') \<Longrightarrow>
   unprocessed env processed' + length new' = unprocessed env processed + length new"
proof (induction cs arbitrary: new processed)
  case Nil
  then show ?case by simp
next
  case (Cons c cs)
  obtain n1 p1 where c1: "consArgs env (argTypes c) (new, processed) = (n1, p1)"
    by (cases "consArgs env (argTypes c) (new, processed)") simp
  from Cons.prems have "checkCons env fn scope cs (n1, p1) = Inr (new', processed')"
    by (simp add: c1 split: if_splits)
  from Cons.IH [OF this] consArgs_measure [OF c1] show ?case by simp
qed

text \<open>The \<open>while (index < toProcess.size())\<close> loop; the list holds what is left of \<open>toProcess\<close>.\<close>

function checkDtLoop ::
  "SygusEnv \<Rightarrow> Node \<Rightarrow> Node list \<Rightarrow> TypeNode list \<Rightarrow> TypeNode list \<Rightarrow> error + unit" where
  "checkDtLoop env fn funs [] processed = Inr ()"
| "checkDtLoop env fn funs (tnp # rest) processed =
     (case getDType env tnp of
        None \<Rightarrow> Inl (AssertionFailure ''tnp.isDatatype()'')
      | Some dt \<Rightarrow>
          if \<not> isSygus dt then Inl (AssertionFailure ''tnp.getDType().isSygus()'')
          else
            (case checkCons env fn (funs @ children (sygusVarList dt)) (constructors dt)
                    ([], processed) of
               Inl e \<Rightarrow> Inl e
             | Inr (new, processed') \<Rightarrow> checkDtLoop env fn funs (rest @ new) processed'))"
  by pat_completeness auto
termination
proof (relation "measure (\<lambda>(env, fn, funs, pending, processed).
                            unprocessed env processed + length pending)")
  show "wf (measure (\<lambda>(env, fn, funs, pending, processed).
                            unprocessed env processed + length pending))"
    by simp
next
  fix env :: SygusEnv and dt :: DType and fn funs tnp rest processed x new processed'
  assume "checkCons env fn (funs @ children (sygusVarList dt)) (constructors dt) ([], processed)
            = Inr x"
    and "(new, processed') = x"
  then have "checkCons env fn (funs @ children (sygusVarList dt)) (constructors dt)
      ([], processed) = Inr (new, processed')" by simp
  from checkCons_measure [OF this]
  show "((env, fn, funs, rest @ new, processed'), env, fn, funs, tnp # rest, processed)
        \<in> measure (\<lambda>(env, fn, funs, pending, processed).
                            unprocessed env processed + length pending)"
    by simp
qed

definition checkDefinitionsSygusDt ::
  "SygusEnv \<Rightarrow> Node list \<Rightarrow> Node \<Rightarrow> TypeNode \<Rightarrow> error + unit" where
  "checkDefinitionsSygusDt env funSymbols fn tn = checkDtLoop env fn funSymbols [tn] []"

definition declareSynthFun ::
  "SygusEnv \<Rightarrow> Node \<Rightarrow> TypeNode \<Rightarrow> bool \<Rightarrow> Node list \<Rightarrow> SygusSolver \<Rightarrow> error + SygusSolver" where
  "declareSynthFun env fn sygusType isInv vars s =
     (let s1 = s\<lparr>d_sygusFunSymbols := d_sygusFunSymbols s @ [fn]\<rparr>;
          s2 = (if vars \<noteq> []
                then s1\<lparr>sygusArgumentListAttr :=
                          (fn, App BOUND_VAR_LIST vars) # sygusArgumentListAttr s1\<rparr>
                else s1)
      in
        if \<not> isNullType sygusType \<and> isSygusDatatype env sygusType
        then
          (let s3 = s2\<lparr>sygusTypeAttr := (fn, sygusType) # sygusTypeAttr s2\<rparr> in
           case checkDefinitionsSygusDt env (d_sygusFunSymbols s3) fn sygusType of
             Inl e \<Rightarrow> Inl e
           | Inr _ \<Rightarrow> Inr (s3\<lparr>d_sygusConjectureStale := True\<rparr>))
        else Inr (s2\<lparr>d_sygusConjectureStale := True\<rparr>))"

text \<open>
  \<open>assertSygusConstraint\<close>: a conjunction is split into its children, each asserted in
  turn; a universal quantifier gives up its variables and only its body is kept.
\<close>

fun assertSygusConstraint :: "Node \<Rightarrow> bool \<Rightarrow> SygusSolver \<Rightarrow> error + SygusSolver"
  and assertSygusConstraints :: "Node list \<Rightarrow> bool \<Rightarrow> SygusSolver \<Rightarrow> error + SygusSolver" where
  "assertSygusConstraint (App k cs) isAssume s =
     (if k = AND then assertSygusConstraints cs isAssume s
      else if k = FORALL then
        (case cs of
           bvl # body # _ \<Rightarrow>
             (let s1 = fold declareSygusVar (children bvl) s;
                  s2 = (if isAssume then s1\<lparr>d_sygusAssumps := d_sygusAssumps s1 @ [body]\<rparr>
                        else s1\<lparr>d_sygusConstraints := d_sygusConstraints s1 @ [body]\<rparr>)
              in Inr (s2\<lparr>d_sygusConjectureStale := True\<rparr>))
         | [bvl] \<Rightarrow> Inl ChildIndexOutOfRange
         | [] \<Rightarrow> Inl ChildIndexOutOfRange)
      else
        (let s2 = (if isAssume then s\<lparr>d_sygusAssumps := d_sygusAssumps s @ [App k cs]\<rparr>
                   else s\<lparr>d_sygusConstraints := d_sygusConstraints s @ [App k cs]\<rparr>)
         in Inr (s2\<lparr>d_sygusConjectureStale := True\<rparr>)))"
| "assertSygusConstraint n isAssume s =
     (let s2 = (if isAssume then s\<lparr>d_sygusAssumps := d_sygusAssumps s @ [n]\<rparr>
                else s\<lparr>d_sygusConstraints := d_sygusConstraints s @ [n]\<rparr>)
      in Inr (s2\<lparr>d_sygusConjectureStale := True\<rparr>))"
| "assertSygusConstraints [] isAssume s = Inr s"
| "assertSygusConstraints (nc # ncs) isAssume s =
     (case assertSygusConstraint nc isAssume s of
        Inl e \<Rightarrow> Inl e
      | Inr s' \<Rightarrow> assertSygusConstraints ncs isAssume s')"

definition getSygusConstraints :: "SygusSolver \<Rightarrow> Node list" where
  "getSygusConstraints s = d_sygusConstraints s"

definition getSygusAssumptions :: "SygusSolver \<Rightarrow> Node list" where
  "getSygusAssumptions s = d_sygusAssumps s"

text \<open>
  Modelled from the spec: \<open>TypeNode::getArgTypes\<close>, which is not part of the code under
  study. It answers the argument types of a function type (the spec: "for every argument
  type"); a type that is not a function type is rejected.
\<close>

definition getArgTypes :: "TypeNode \<Rightarrow> error + TypeNode list" where
  "getArgTypes t =
     (case t of FunctionType args _ \<Rightarrow> Inr args
      | _ \<Rightarrow> Inl (AssertionFailure ''isFunction()''))"

text \<open>
  The loop of \<open>assertSygusInvConstraint\<close> over the argument types: one fresh bound
  variable and one fresh primed bound variable per type, both declared.
\<close>

fun mkInvVars ::
  "SygusEnv \<Rightarrow> TypeNode list \<Rightarrow> Node list \<times> Node list \<times> SygusSolver
     \<Rightarrow> Node list \<times> Node list \<times> SygusSolver" where
  "mkInvVars env [] acc = acc"
| "mkInvVars env (tn # tns) (vars, primed_vars, s) =
     (let v = Leaf BOUND_VARIABLE (nm_nextId s) None tn;
          s1 = s\<lparr>nm_nextId := nm_nextId s + 1, d_sygusVars := d_sygusVars s @ [v]\<rparr>;
          pv = Leaf BOUND_VARIABLE (nm_nextId s1) (Some (nodeToString env v @ [CHR 0x27])) tn;
          s2 = s1\<lparr>nm_nextId := nm_nextId s1 + 1, d_sygusVars := d_sygusVars s1 @ [pv]\<rparr>
      in mkInvVars env tns (vars @ [v], primed_vars @ [pv], s2))"

text \<open>The loop \<open>for (i = 0; i < 4; ++i)\<close> that turns the four operators into applications.\<close>

fun mkInvTerms :: "Node list \<Rightarrow> Node list \<Rightarrow> nat list \<Rightarrow> Node list \<Rightarrow> Node list" where
  "mkInvTerms vars primed_vars [] terms = terms"
| "mkInvTerms vars primed_vars (i # is) terms =
     (let op = terms ! i;
          cs = (if i = 2 then [op] @ vars @ primed_vars else [op] @ vars);
          terms1 = terms[i := App APPLY_UF cs];
          terms2 = (if i = 0 then terms1 @ [App APPLY_UF ([op] @ primed_vars)] else terms1)
      in mkInvTerms vars primed_vars is terms2)"

definition assertSygusInvConstraint ::
  "SygusEnv \<Rightarrow> Node \<Rightarrow> Node \<Rightarrow> Node \<Rightarrow> Node \<Rightarrow> SygusSolver \<Rightarrow> error + SygusSolver" where
  "assertSygusInvConstraint env inv_fn pre trans_fn post s =
     (case getArgTypes (getType env inv_fn) of
        Inl e \<Rightarrow> Inl e
      | Inr tys \<Rightarrow>
          (case mkInvVars env tys ([], [], s) of
             (vars, primed_vars, s1) \<Rightarrow>
               (let terms = mkInvTerms vars primed_vars [0, 1, 2, 3] [inv_fn, pre, trans_fn, post];
                    conj = [App IMPLIES [terms ! 1, terms ! 0],
                            App IMPLIES [App AND [terms ! 0, terms ! 2], terms ! 4],
                            App IMPLIES [terms ! 0, terms ! 3]];
                    constraint = App AND conj;
                    s2 = s1\<lparr>d_sygusConstraints := d_sygusConstraints s1 @ [constraint]\<rparr>
                in Inr (s2\<lparr>d_sygusConjectureStale := True\<rparr>))))"

section \<open>SygusSolver: checking the synthesis conjecture\<close>

definition usingSygusSubsolver :: "SygusEnv \<Rightarrow> bool" where
  "usingSygusSubsolver env = incrementalSolving (opts env)"

fun isVar :: "Node \<Rightarrow> bool" where
  "isVar (Leaf k _ _ _) = (k = BOUND_VARIABLE \<or> k = VARIABLE \<or> k = SKOLEM)"
| "isVar _ = False"

text \<open>
  \<open>initializeSygusSubsolver\<close>, first loop: the ordinary definitions \<open>(= f (lambda ...))\<close>
  are carried into the new engine and remembered in \<open>processed\<close>.
\<close>

fun defineFunctions ::
  "SygusEnv \<Rightarrow> Node list \<Rightarrow> SolverEngine \<times> Node list \<Rightarrow> error + (SolverEngine \<times> Node list)" where
  "defineFunctions env [] acc = Inr acc"
| "defineFunctions env (def # defs) (se, processed) =
     (if getKind def = Some EQUAL then
        (case child def 0 of Inl e \<Rightarrow> Inl e | Inr d0 \<Rightarrow>
         if assertionsOn env \<and> \<not> isVar d0 then Inl (AssertionFailure ''def[0].isVar()'')
         else
           case child def 1 of Inl e \<Rightarrow> Inl e | Inr d1 \<Rightarrow>
           case (if getKind d1 = Some LAMBDA then
                   (case child d1 0 of Inl e \<Rightarrow> Inl e | Inr bvl \<Rightarrow>
                    case child d1 1 of Inl e \<Rightarrow> Inl e | Inr dbody \<Rightarrow>
                      Inr (children bvl, dbody))
                 else Inr ([], d1))
           of Inl e \<Rightarrow> Inl e | Inr (formals, dbody) \<Rightarrow>
             defineFunctions env defs
               (se\<lparr>seDefinedFunctions := seDefinedFunctions se @ [(d0, formals, dbody)]\<rparr>,
                def # processed))
      else defineFunctions env defs (se, processed))"

definition initializeSygusSubsolver ::
  "SygusEnv \<Rightarrow> Assertions \<Rightarrow> SygusSolver \<Rightarrow> error + (SolverEngine \<times> SygusSolver)" where
  "initializeSygusSubsolver env as s =
     (let se0 = \<lparr>seId = nextEngineId s, seDefinedFunctions = [], seAssertions = [],
                 seCheckSynthSol = checkSynthSol (opts env),
                 seSygusRecFun = sygusRecFun (opts env)\<rparr>
      in case defineFunctions env (assertionListDefinitions as) (se0, [d_conj s]) of
           Inl e \<Rightarrow> Inl e
         | Inr (se1, processed) \<Rightarrow>
             Inr (se1\<lparr>seAssertions :=
                        seAssertions se1 @ filter (\<lambda>a. a \<notin> set processed) (assertionList as)\<rparr>,
                  s\<lparr>nextEngineId := nextEngineId s + 1\<rparr>))"

text \<open>The body of the conjecture, before the functions to synthesize are bound.\<close>

definition conjectureBody :: "SygusEnv \<Rightarrow> SygusSolver \<Rightarrow> Node" where
  "conjectureBody env s =
     (let body0 = mkAnd env (d_sygusConstraints s);
          body1 = (if d_sygusConstraints s \<noteq> [] \<and> d_sygusAssumps s \<noteq> []
                   then App IMPLIES [mkAnd env (d_sygusAssumps s), body0] else body0);
          body2 = notNode body1
      in if d_sygusVars s \<noteq> []
         then App EXISTS [App BOUND_VAR_LIST (d_sygusVars s), body2]
         else body2)"

text \<open>
  The symbols reached through the grammars of the functions that occur: the inner loop
  over \<open>ntrivSynthFuns\<close>, adding to \<open>vs\<close>.
\<close>

fun addGrammarSymbols ::
  "SygusEnv \<Rightarrow> (Node \<times> TypeNode) list \<Rightarrow> Node list \<Rightarrow> Node list \<Rightarrow> Node list" where
  "addGrammarSymbols env attr [] vs = vs"
| "addGrammarSymbols env attr (f # fs) vs =
     (case map_of attr f of
        None \<Rightarrow> addGrammarSymbols env attr fs vs
      | Some tnp \<Rightarrow>
          if isNullType tnp then addGrammarSymbols env attr fs vs
          else addGrammarSymbols env attr fs (vs @ getFreeVariablesSygusType env tnp))"

text \<open>
  The loop \<open>for (i = 0; i < 2; i++)\<close> of triviality inference. \<open>vs\<close> is a set, so its size
  is the number of distinct members; \<open>ntrivSynthFuns\<close> is not cleared between passes.
\<close>

fun trivialityPasses ::
  "SygusEnv \<Rightarrow> (Node \<times> TypeNode) list \<Rightarrow> Node list \<Rightarrow> nat list \<Rightarrow> Node list \<Rightarrow> Node list
     \<Rightarrow> Node list \<Rightarrow> Node list \<times> Node list" where
  "trivialityPasses env attr funs [] vs ntrivSynthFuns trivialFuns = (ntrivSynthFuns, trivialFuns)"
| "trivialityPasses env attr funs (i # is) vs ntrivSynthFuns trivialFuns =
     (let trivialFuns1 = filter (\<lambda>f. f \<notin> set vs) funs;
          ntrivSynthFuns1 = ntrivSynthFuns @ filter (\<lambda>f. f \<in> set vs) funs
      in if i = 0 \<and> trivialFuns1 \<noteq> [] then
           (let prevSize = length (remdups vs);
                vs1 = addGrammarSymbols env attr ntrivSynthFuns1 vs
            in if length (remdups vs1) = prevSize then (ntrivSynthFuns1, trivialFuns1)
               else trivialityPasses env attr funs is vs1 ntrivSynthFuns1 trivialFuns1)
         else (ntrivSynthFuns1, trivialFuns1))"

text \<open>
  The part of \<open>checkSynth\<close> that runs when the conjecture is stale: build the conjecture,
  infer the trivial functions, store the conjecture, and set up the nested engine.
\<close>

definition constructConjecture ::
  "SygusEnv \<Rightarrow> Assertions \<Rightarrow> SygusSolver \<Rightarrow> error + SygusSolver" where
  "constructConjecture env as s =
     (let body = conjectureBody env s;
          inferTrivial = \<not> (sygusStream (opts env) \<or> incrementalSolving (opts env))
      in
        case (if inferTrivial then
                (case (if getKind body = Some EXISTS then child body 1 else Inr body) of
                   Inl e \<Rightarrow> Inl e
                 | Inr ppBody0 \<Rightarrow>
                     (let ppBody = rewrite env (applySubstitutions env ppBody0);
                          vs = getVariables env ppBody
                      in case trivialityPasses env (sygusTypeAttr s) (d_sygusFunSymbols s)
                                [0, 1] vs [] (d_trivialFuns s) of
                           (ntriv, triv) \<Rightarrow> Inr (ntriv, s\<lparr>d_trivialFuns := triv\<rparr>)))
              else Inr (d_sygusFunSymbols s, s))
        of Inl e \<Rightarrow> Inl e
         | Inr (ntrivSynthFuns, s1) \<Rightarrow>
             (let body1 = (if ntrivSynthFuns \<noteq> [] then mkSygusConjecture env ntrivSynthFuns body
                           else body);
                  s2 = s1\<lparr>d_sygusConjectureStale := False, d_conj := body1\<rparr>
              in if usingSygusSubsolver env then
                   (case initializeSygusSubsolver env as s2 of
                      Inl e \<Rightarrow> Inl e
                    | Inr (se, s3) \<Rightarrow>
                        Inr (s3\<lparr>d_subsolverCd := Some (seId se),
                                d_subsolver :=
                                  Some (se\<lparr>seAssertions := seAssertions se @ [d_conj s3]\<rparr>)\<rparr>))
                 else Inr s2))"

text \<open>The head of \<open>checkSynth\<close>: decide staleness, then rebuild or check the engine is there.\<close>

definition refreshConjecture ::
  "SygusEnv \<Rightarrow> Assertions \<Rightarrow> bool \<Rightarrow> SygusSolver \<Rightarrow> error + SygusSolver" where
  "refreshConjecture env as isNext s =
     (let s1 = (if \<not> isNext then s\<lparr>d_sygusConjectureStale := True\<rparr> else s);
          s2 = (if usingSygusSubsolver env
                   \<and> d_subsolverCd s1 \<noteq> map_option seId (d_subsolver s1)
                then s1\<lparr>d_sygusConjectureStale := True\<rparr> else s1)
      in if d_sygusConjectureStale s2 then constructConjecture env as s2
         else if assertionsOn env \<and> d_subsolver s2 = None
         then Inl (AssertionFailure ''d_subsolver != nullptr'')
         else Inr s2)"

text \<open>The raw satisfiability check: on the nested engine, or by the single-call driver.\<close>

definition rawCheckSat :: "SygusEnv \<Rightarrow> SygusSolver \<Rightarrow> error + Result" where
  "rawCheckSat env s =
     (if usingSygusSubsolver env then
        (case d_subsolver s of
           None \<Rightarrow> Inl NullPointerDereference
         | Some se \<Rightarrow> Inr (subsolverCheckSat env se))
      else Inr (mainCheckSat env [d_conj s]))"

text \<open>The solutions of every conjecture are merged into one map.\<close>

definition getSubsolverSynthSolutions ::
  "SygusEnv \<Rightarrow> SygusSolver \<Rightarrow> (Node \<times> Node) list \<Rightarrow> bool \<times> (Node \<times> Node) list" where
  "getSubsolverSynthSolutions env s solMap =
     (case qeGetSynthSolutions env (d_conj s) of
        None \<Rightarrow> (False, solMap)
      | Some solMapn \<Rightarrow>
          (True, fold (\<lambda>cs m. fold (\<lambda>sol m'. setEntry (fst sol) (snd sol) m') (snd cs) m)
                      solMapn solMap))"

text \<open>The loop of \<open>getSynthSolutions\<close> that gives each trivial function its term.\<close>

fun addTrivialSolutions ::
  "SygusEnv \<Rightarrow> Node list \<Rightarrow> (Node \<times> Node) list \<Rightarrow> error + (Node \<times> Node) list" where
  "addTrivialSolutions env [] solMap = Inr solMap"
| "addTrivialSolutions env (f # fs) solMap =
     (let sf = mkSygusTermFor env f in
      if assertionsOn env \<and> getType env f \<noteq> getType env sf
      then Inl (AssertionFailure ''f.getType() == sf.getType()'')
      else addTrivialSolutions env fs (setEntry f sf solMap))"

definition getSynthSolutions ::
  "SygusEnv \<Rightarrow> SygusSolver \<Rightarrow> (Node \<times> Node) list \<Rightarrow> error + (bool \<times> (Node \<times> Node) list)" where
  "getSynthSolutions env s solMap =
     (case (if usingSygusSubsolver env then
              (case d_subsolver s of
                 None \<Rightarrow> (False, solMap)
               | Some se \<Rightarrow>
                   (case subsolverSynthSolutions env se of
                      None \<Rightarrow> (False, solMap)
                    | Some sols \<Rightarrow>
                        (True, fold (\<lambda>sol m. setEntry (fst sol) (snd sol) m) sols solMap)))
            else getSubsolverSynthSolutions env s solMap)
      of (ret, solMap1) \<Rightarrow>
        if ret then
          (case addTrivialSolutions env (d_trivialFuns s) solMap1 of
             Inl e \<Rightarrow> Inl e
           | Inr solMap2 \<Rightarrow> Inr (ret, solMap2))
        else Inr (ret, solMap1))"

definition canTrustSynthesisResult :: "Options \<Rightarrow> bool" where
  "canTrustSynthesisResult os = (if cegisSample os = CEGIS_SAMPLE_TRUST then False else True)"

text \<open>
  The loop of \<open>checkSynthSolution\<close> over the solution map: the substitution by the
  solutions, the substitution by fresh skolems, and the solution equalities.
\<close>

fun mkSolutionSubs ::
  "SygusEnv \<Rightarrow> (Node \<times> Node) list \<Rightarrow> (Node \<times> Node) list \<times> (Node \<times> Node) list \<times> Node list \<times> SygusSolver
     \<Rightarrow> (Node \<times> Node) list \<times> (Node \<times> Node) list \<times> Node list \<times> SygusSolver" where
  "mkSolutionSubs env [] acc = acc"
| "mkSolutionSubs env (pair # pairs) (fsubs, psubs, eqs, s) =
     (let sk = Leaf SKOLEM (nm_nextId s) (Some ''sk'') (getType env (fst pair)) in
      mkSolutionSubs env pairs
        (fsubs @ [(fst pair, snd pair)], psubs @ [(fst pair, sk)],
         eqs @ [eqNode (fst pair) (snd pair)], s\<lparr>nm_nextId := nm_nextId s + 1\<rparr>))"

definition isVerboseOn :: "SygusEnv \<Rightarrow> nat \<Rightarrow> bool" where
  "isVerboseOn env level = (level \<le> verbosity (opts env))"

text \<open>The messages of \<open>checkSynthSolution\<close>.\<close>

definition emptySolutionMessage :: string where
  "emptySolutionMessage = ''SygusSolver::checkSynthSolution(): Got empty solution!''"

definition satisfiableMessage :: string where
  "satisfiableMessage =
     ''SygusSolver::checkSynthSolution(): produced solution leads to satisfiable negated conjecture.''"

definition unknownMessage :: string where
  "unknownMessage = ''SygusSolver::checkSynthSolution(): could not check solution, result unknown.''"

definition untrustedMessage :: string where
  "untrustedMessage = ''Running check-synth-sol is not guaranteed to pass with the current options.''"

text \<open>What is written before any conjecture is checked.\<close>

definition preambleOutput :: "SygusEnv \<Rightarrow> Output list" where
  "preambleOutput env =
     (if isVerboseOn env 1
      then [Verbose ''SyGuS::checkSynthSolution: checking synthesis solution'']
      else []) @
     (if \<not> canTrustSynthesisResult (opts env) then [Warning untrustedMessage] else [])"

text \<open>
  The conjecture body with the solutions substituted; if free variables remain, the
  solution equalities are conjoined and the functions replaced by the skolems.
\<close>

definition substitutedBody ::
  "SygusEnv \<Rightarrow> (Node \<times> Node) list \<Rightarrow> (Node \<times> Node) list \<Rightarrow> Node list \<Rightarrow> Node \<Rightarrow> Node" where
  "substitutedBody env fsubs psubs eqs conjBody0 =
     (let conjBody1 = applySubstitutions env conjBody0;
          conjBody2 = rewrite env (substApply env fsubs conjBody1)
      in if hasFreeVar env conjBody2
         then rewrite env (substApply env psubs (mkAnd env (conjBody2 # eqs)))
         else conjBody2)"

text \<open>The verification engine as it stands when its satisfiability is checked.\<close>

definition solutionChecker :: "SolverEngine \<Rightarrow> Node \<Rightarrow> SolverEngine" where
  "solutionChecker solChecker0 conjBody =
     (let solChecker = solChecker0\<lparr>seCheckSynthSol := False, seSygusRecFun := False\<rparr>
      in solChecker\<lparr>seAssertions := seAssertions solChecker @ [conjBody]\<rparr>)"

definition verboseCheck :: "SygusEnv \<Rightarrow> Node \<Rightarrow> Result \<Rightarrow> Output list" where
  "verboseCheck env conjBody r =
     (if isVerboseOn env 1
      then [Verbose (''SyGuS::checkSynthSolution: -- body substitutes to ''
                     @ nodeToString env conjBody),
            Verbose (''SyGuS::checkSynthSolution: result is '' @ showResult r)]
      else [])"

text \<open>The loop of \<open>checkSynthSolution\<close> over the conjectures to check.\<close>

fun checkConjectures ::
  "SygusEnv \<Rightarrow> Assertions \<Rightarrow> bool \<Rightarrow> (Node \<times> Node) list \<Rightarrow> (Node \<times> Node) list \<Rightarrow> Node list
     \<Rightarrow> Node list \<Rightarrow> SygusSolver \<Rightarrow> Output list \<Rightarrow> Output list \<times> (error + SygusSolver)" where
  "checkConjectures env as canTrustResult fsubs psubs eqs [] s out = (out, Inr s)"
| "checkConjectures env as canTrustResult fsubs psubs eqs (cj # conjs) s out =
     (case initializeSygusSubsolver env as s of
        Inl e \<Rightarrow> (out, Inl e)
      | Inr (solChecker0, s1) \<Rightarrow>
          (case (if getKind cj = Some FORALL then child cj 1 else Inr cj) of
             Inl e \<Rightarrow> (out, Inl e)
           | Inr conjBody0 \<Rightarrow>
               (let conjBody = substitutedBody env fsubs psubs eqs conjBody0;
                    r = subsolverCheckSat env (solutionChecker solChecker0 conjBody);
                    out2 = out @ verboseCheck env conjBody r
                in if r = UNSAT
                   then checkConjectures env as canTrustResult fsubs psubs eqs conjs s1 out2
                   else
                     (let hardFailure = (if r = SAT then canTrustResult else False);
                          ss = (if r = SAT then satisfiableMessage else unknownMessage)
                      in if hardFailure then (out2, Inl (InternalError ss))
                         else checkConjectures env as canTrustResult fsubs psubs eqs conjs s1
                                (out2 @ [Warning ss])))))"

definition checkSynthSolution ::
  "SygusEnv \<Rightarrow> Assertions \<Rightarrow> (Node \<times> Node) list \<Rightarrow> SygusSolver
     \<Rightarrow> Output list \<times> (error + SygusSolver)" where
  "checkSynthSolution env as sol_map s =
     (let canTrustResult = canTrustSynthesisResult (opts env);
          out1 = preambleOutput env
      in if sol_map = []
         then (out1, Inl (InternalError emptySolutionMessage))
         else
           (case mkSolutionSubs env sol_map ([], [], [], s) of
              (fsubs, psubs, eqs, s1) \<Rightarrow>
                checkConjectures env as canTrustResult fsubs psubs eqs [d_conj s] s1 out1))"

definition checkSynth ::
  "SygusEnv \<Rightarrow> Assertions \<Rightarrow> bool \<Rightarrow> SygusSolver
     \<Rightarrow> Output list \<times> (error + (SynthResult \<times> SygusSolver))" where
  "checkSynth env as isNext s =
     (case refreshConjecture env as isNext s of
        Inl e \<Rightarrow> ([], Inl e)
      | Inr s1 \<Rightarrow>
          (case rawCheckSat env s1 of
             Inl e \<Rightarrow> ([], Inl e)
           | Inr r \<Rightarrow>
               (case getSynthSolutions env s1 [] of
                  Inl e \<Rightarrow> ([], Inl e)
                | Inr (ret, sol_map) \<Rightarrow>
                    if ret then
                      (if checkSynthSol (opts env) then
                         (let as1 = (if usingSygusSubsolver env then as
                                     else driverAssertions env as [d_conj s1]) in
                          case checkSynthSolution env as1 sol_map s1 of
                            (out, Inl e) \<Rightarrow> (out, Inl e)
                          | (out, Inr s2) \<Rightarrow> (out, Inr (SynthResult SOLUTION UNKNOWN_REASON, s2)))
                       else ([], Inr (SynthResult SOLUTION UNKNOWN_REASON, s1)))
                    else if r = UNSAT
                    then ([], Inr (SynthResult NO_SOLUTION UNKNOWN_REASON, s1))
                    else ([], Inr (SynthResult UNKNOWN UNKNOWN_REASON, s1)))))"

definition getSynthFunctions :: "SygusSolver \<Rightarrow> (Node \<times> TypeNode) list" where
  "getSynthFunctions s =
     map (\<lambda>f. (f, (case map_of (sygusTypeAttr s) f of None \<Rightarrow> NullType | Some st \<Rightarrow> st)))
         (d_sygusFunSymbols s)"

section \<open>A concrete sygus environment for evaluation\<close>

text \<open>
  Two functions to synthesize, \<open>g\<close> and \<open>f\<close>, both from integers to integers; the only
  constraint is \<open>g(x) = x\<close>, so \<open>f\<close> does not occur in it. The engines answer "unknown" and
  report the identity as the solution for \<open>g\<close>.
\<close>

definition funG :: Node where
  "funG = Leaf VARIABLE 20 (Some ''g'') (FunctionType [IntType] IntType)"

definition funF :: Node where
  "funF = Leaf VARIABLE 21 (Some ''f'') (FunctionType [IntType] IntType)"

definition varX :: Node where
  "varX = Leaf BOUND_VARIABLE 22 (Some ''x'') IntType"

definition varZ :: Node where
  "varZ = Leaf BOUND_VARIABLE 23 (Some ''z'') IntType"

definition constraintG :: Node where
  "constraintG = App EQUAL [App APPLY_UF [funG, varX], varX]"

definition solG :: Node where
  "solG = App LAMBDA [App BOUND_VAR_LIST [varX], varX]"

fun collectVars :: "Node \<Rightarrow> Node list" and collectVarsList :: "Node list \<Rightarrow> Node list" where
  "collectVars NullNode = []"
| "collectVars (Leaf k i nm t) = (if isVar (Leaf k i nm t) then [Leaf k i nm t] else [])"
| "collectVars (App k cs) = collectVarsList cs"
| "collectVarsList [] = []"
| "collectVarsList (n # ns) = collectVars n @ collectVarsList ns"

definition fixtureMkAnd :: "Node list \<Rightarrow> Node" where
  "fixtureMkAnd ns =
     (case ns of
        [] \<Rightarrow> Leaf CONST_VALUE 0 (Some ''true'') BoolType
      | [n] \<Rightarrow> n
      | _ \<Rightarrow> App AND ns)"

definition fixturePlaceholder :: "Node \<Rightarrow> Node" where
  "fixturePlaceholder f =
     (case leafType f of
        FunctionType args r \<Rightarrow>
          App LAMBDA [App BOUND_VAR_LIST (map (\<lambda>t. Leaf BOUND_VARIABLE 0 None t) args),
                      Leaf CONST_VALUE 0 None r]
      | t \<Rightarrow> Leaf CONST_VALUE 0 None t)"

definition fixtureShow :: "Node \<Rightarrow> string" where
  "fixtureShow n = (case n of Leaf _ _ (Some nm) _ \<Rightarrow> nm | Leaf _ _ None _ \<Rightarrow> ''v'' | _ \<Rightarrow> ''t'')"

definition opts0 :: Options where
  "opts0 =
     \<lparr>sygusStream = False, incrementalSolving = False, checkSynthSol = False,
      cegisSample = CEGIS_SAMPLE_NONE, sygusRecFun = True, verbosity = 0\<rparr>"

definition sygusEnv0 :: SygusEnv where
  "sygusEnv0 =
     \<lparr>getType = fixtureType, rewrite = (\<lambda>n. n), assertionsOn = True,
      opts = opts0,
      applySubstitutions = (\<lambda>n. n),
      getVariables = collectVars,
      hasFreeVar = (\<lambda>_. False),
      hasFreeVariablesScope = (\<lambda>_ _. False),
      getFreeVariablesSygusType = (\<lambda>_. []),
      mkSygusConjecture = (\<lambda>fs body. App FORALL [App BOUND_VAR_LIST fs, body]),
      mkSygusTermFor = fixturePlaceholder,
      mkAnd = fixtureMkAnd,
      nodeToString = fixtureShow,
      substApply = (\<lambda>_ n. n),
      dtypeTable = [],
      subsolverCheckSat = (\<lambda>_. Result.UNKNOWN),
      subsolverSynthSolutions = (\<lambda>_. Some [(funG, solG)]),
      mainCheckSat = (\<lambda>_. Result.UNKNOWN),
      driverAssertions = (\<lambda>as q. as\<lparr>assertionList := assertionList as @ q\<rparr>),
      qeGetSynthSolutions = (\<lambda>c. Some [(c, [(funG, solG)])])\<rparr>"

definition noAssertions :: Assertions where
  "noAssertions = \<lparr>assertionListDefinitions = [], assertionList = []\<rparr>"

text \<open>The solver after \<open>g\<close> and \<open>f\<close> were declared and \<open>g(x) = x\<close> was asserted for all \<open>x\<close>.\<close>

definition declaredSolver :: SygusSolver where
  "declaredSolver =
     newSygusSolver
       \<lparr>d_sygusVars := [varX], d_sygusConstraints := [constraintG],
        d_sygusFunSymbols := [funG, funF], nm_nextId := 24\<rparr>"

section \<open>Properties of SygusSolver: checking solutions\<close>

lemma declaredSolver_reached:
  "(case declareSynthFun sygusEnv0 funG NullType False [] (newSygusSolver\<lparr>nm_nextId := 24\<rparr>) of
      Inl e \<Rightarrow> Inl e
    | Inr s1 \<Rightarrow>
        (case declareSynthFun sygusEnv0 funF NullType False [] s1 of
           Inl e \<Rightarrow> Inl e
         | Inr s2 \<Rightarrow>
             assertSygusConstraint (App FORALL [App BOUND_VAR_LIST [varX], constraintG]) False s2))
   = Inr declaredSolver"
  by (simp add: declareSynthFun_def newSygusSolver_def declaredSolver_def declareSygusVar_def)

text \<open>
  C8. \<open>checkSynthSolution\<close> invoked with an empty solution map stops with a fatal
  internal error, for every environment and so for every configuration: only what was
  written before (the verbose line and the warning of the untrusted configuration) is
  kept, and nothing turns the error into a warning.
\<close>

theorem checkSynthSolution_empty_map_fatal:
  "checkSynthSolution env as [] s = (preambleOutput env, Inl (InternalError emptySolutionMessage))"
  by (simp add: checkSynthSolution_def)

theorem checkSynthSolution_empty_map_fatal_witness:
  "canTrustSynthesisResult (opts (sygusEnv0\<lparr>opts := opts0\<lparr>cegisSample := CEGIS_SAMPLE_TRUST\<rparr>\<rparr>)) = False \<and>
   checkSynthSolution (sygusEnv0\<lparr>opts := opts0\<lparr>cegisSample := CEGIS_SAMPLE_TRUST\<rparr>\<rparr>)
     noAssertions [] declaredSolver =
     ([Warning untrustedMessage], Inl (InternalError emptySolutionMessage))"
  using checkSynthSolution_empty_map_fatal
    [of "sygusEnv0\<lparr>opts := opts0\<lparr>cegisSample := CEGIS_SAMPLE_TRUST\<rparr>\<rparr>" noAssertions declaredSolver]
  by (simp add: preambleOutput_def canTrustSynthesisResult_def isVerboseOn_def sygusEnv0_def opts0_def)

text \<open>
  C7. One conjecture checked by \<open>checkSynthSolution\<close>, once the verification engine is
  set up and the body extracted, with \<open>r\<close> the result of its satisfiability check: on
  UNSAT the loop goes on to the next conjecture and only the verbose lines are written; on
  SAT it stops with a fatal internal error when the result can be trusted, and writes a
  warning and goes on when it cannot; on any other result it writes a warning and goes
  on, whatever the trust configuration. With a non-empty solution map
  \<open>checkSynthSolution\<close> runs this loop on the stored conjecture, the result being
  trusted unless the sampling mode is \<open>TRUST\<close>.
\<close>

theorem checkSynthSolution_verdict:
  assumes init: "initializeSygusSubsolver env as s = Inr (solChecker0, s1)"
    and body: "(if getKind cj = Some FORALL then child cj 1 else Inr cj) = Inr conjBody0"
    and r: "r = subsolverCheckSat env
                  (solutionChecker solChecker0 (substitutedBody env fsubs psubs eqs conjBody0))"
    and v: "v = verboseCheck env (substitutedBody env fsubs psubs eqs conjBody0) r"
  shows
    "(r = UNSAT \<longrightarrow>
        checkConjectures env as canTrustResult fsubs psubs eqs (cj # conjs) s out =
        checkConjectures env as canTrustResult fsubs psubs eqs conjs s1 (out @ v)) \<and>
     (r = SAT \<and> canTrustResult \<longrightarrow>
        checkConjectures env as canTrustResult fsubs psubs eqs (cj # conjs) s out =
        (out @ v, Inl (InternalError satisfiableMessage))) \<and>
     (r = SAT \<and> \<not> canTrustResult \<longrightarrow>
        checkConjectures env as canTrustResult fsubs psubs eqs (cj # conjs) s out =
        checkConjectures env as canTrustResult fsubs psubs eqs conjs s1
          (out @ v @ [Warning satisfiableMessage])) \<and>
     (r \<noteq> UNSAT \<and> r \<noteq> SAT \<longrightarrow>
        checkConjectures env as canTrustResult fsubs psubs eqs (cj # conjs) s out =
        checkConjectures env as canTrustResult fsubs psubs eqs conjs s1
          (out @ v @ [Warning unknownMessage])) \<and>
     (sol_map \<noteq> [] \<longrightarrow>
        checkSynthSolution env as sol_map s0 =
        (case mkSolutionSubs env sol_map ([], [], [], s0) of
           (fsubs', psubs', eqs', s0') \<Rightarrow>
             checkConjectures env as (cegisSample (opts env) \<noteq> CEGIS_SAMPLE_TRUST)
               fsubs' psubs' eqs' [d_conj s0] s0' (preambleOutput env)))"
proof -
  have c: "checkConjectures env as canTrustResult fsubs psubs eqs (cj # conjs) s out =
      (if r = UNSAT
       then checkConjectures env as canTrustResult fsubs psubs eqs conjs s1 (out @ v)
       else if (if r = SAT then canTrustResult else False)
       then (out @ v, Inl (InternalError (if r = SAT then satisfiableMessage else unknownMessage)))
       else checkConjectures env as canTrustResult fsubs psubs eqs conjs s1
              ((out @ v) @ [Warning (if r = SAT then satisfiableMessage else unknownMessage)]))"
    using init body r v
    by (simp add: Let_def del: initializeSygusSubsolver_def)
  have t: "canTrustSynthesisResult (opts env) = (cegisSample (opts env) \<noteq> CEGIS_SAMPLE_TRUST)"
    by (simp add: canTrustSynthesisResult_def)
  have d: "sol_map \<noteq> [] \<longrightarrow>
        checkSynthSolution env as sol_map s0 =
        (case mkSolutionSubs env sol_map ([], [], [], s0) of
           (fsubs', psubs', eqs', s0') \<Rightarrow>
             checkConjectures env as (cegisSample (opts env) \<noteq> CEGIS_SAMPLE_TRUST)
               fsubs' psubs' eqs' [d_conj s0] s0' (preambleOutput env))"
    unfolding checkSynthSolution_def t Let_def by simp
  show ?thesis
    unfolding c using d by simp
qed


text \<open>The environment with solution checking on, a given verification result and mode.\<close>

definition envWithCheck :: "Result \<Rightarrow> CegisSampleMode \<Rightarrow> SygusEnv" where
  "envWithCheck r mode =
     sygusEnv0\<lparr>opts := opts0\<lparr>checkSynthSol := True, cegisSample := mode\<rparr>,
               subsolverCheckSat := (\<lambda>_. r)\<rparr>"

definition conjG :: Node where
  "conjG = App FORALL [App BOUND_VAR_LIST [funG],
             App EXISTS [App BOUND_VAR_LIST [varX], App NOT [constraintG]]]"

definition checkedSolver :: SygusSolver where
  "checkedSolver =
     declaredSolver\<lparr>d_sygusConjectureStale := False, d_conj := conjG, d_trivialFuns := [funF]\<rparr>"

lemma checkedSolver_reached:
  "refreshConjecture sygusEnv0 noAssertions False declaredSolver = Inr checkedSolver"
  by (simp add: refreshConjecture_def constructConjecture_def conjectureBody_def
      usingSygusSubsolver_def sygusEnv0_def opts0_def declaredSolver_def newSygusSolver_def
      checkedSolver_def conjG_def fixtureMkAnd_def notNode_def child_def
      constraintG_def funG_def funF_def varX_def Let_def)

lemma init_checked:
  "initializeSygusSubsolver (envWithCheck r mode) noAssertions s =
     Inr (\<lparr>seId = nextEngineId s, seDefinedFunctions = [], seAssertions = [],
           seCheckSynthSol = True, seSygusRecFun = True\<rparr>,
          s\<lparr>nextEngineId := nextEngineId s + 1\<rparr>)"
  by (simp add: initializeSygusSubsolver_def envWithCheck_def sygusEnv0_def opts0_def
      noAssertions_def)

theorem checkSynthSolution_verdict_witness:
  "checkSynthSolution (envWithCheck UNSAT CEGIS_SAMPLE_NONE) noAssertions [(funG, solG)] checkedSolver =
     ([], Inr (checkedSolver\<lparr>nm_nextId := 25, nextEngineId := 1\<rparr>)) \<and>
   checkSynthSolution (envWithCheck SAT CEGIS_SAMPLE_NONE) noAssertions [(funG, solG)] checkedSolver =
     ([], Inl (InternalError satisfiableMessage)) \<and>
   checkSynthSolution (envWithCheck SAT CEGIS_SAMPLE_TRUST) noAssertions [(funG, solG)] checkedSolver =
     ([Warning untrustedMessage, Warning satisfiableMessage],
      Inr (checkedSolver\<lparr>nm_nextId := 25, nextEngineId := 1\<rparr>)) \<and>
   checkSynthSolution (envWithCheck Result.UNKNOWN CEGIS_SAMPLE_NONE) noAssertions [(funG, solG)]
       checkedSolver =
     ([Warning unknownMessage], Inr (checkedSolver\<lparr>nm_nextId := 25, nextEngineId := 1\<rparr>))"
proof -
  let ?s1 = "checkedSolver\<lparr>nm_nextId := 25\<rparr>"
  let ?se = "\<lparr>seId = 0, seDefinedFunctions = [], seAssertions = [],
           seCheckSynthSol = True, seSygusRecFun = True\<rparr>"
  let ?b0 = "App EXISTS [App BOUND_VAR_LIST [varX], App NOT [constraintG]]"
  have subs: "mkSolutionSubs (envWithCheck r mode) [(funG, solG)] ([], [], [], checkedSolver) =
      ([(funG, solG)], [(funG, Leaf SKOLEM 24 (Some ''sk'') (FunctionType [IntType] IntType))],
       [eqNode funG solG], ?s1)" for r mode
    by (simp add: checkedSolver_def declaredSolver_def newSygusSolver_def envWithCheck_def
        sygusEnv0_def funG_def)
  have init: "initializeSygusSubsolver (envWithCheck r mode) noAssertions ?s1 =
      Inr (?se, checkedSolver\<lparr>nm_nextId := 25, nextEngineId := 1\<rparr>)" for r mode
    unfolding init_checked
    by (simp add: checkedSolver_def declaredSolver_def newSygusSolver_def)
  have body: "(if getKind conjG = Some FORALL then child conjG 1 else Inr conjG) = Inr ?b0"
    by (simp add: conjG_def child_def)
  have r: "r = subsolverCheckSat (envWithCheck r mode) se" for r mode se
    by (simp add: envWithCheck_def sygusEnv0_def)
  have v: "[] = verboseCheck (envWithCheck r mode) b r" for r mode b
    by (simp add: verboseCheck_def isVerboseOn_def envWithCheck_def sygusEnv0_def opts0_def)
  have p: "preambleOutput (envWithCheck r mode) =
      (if mode = CEGIS_SAMPLE_TRUST then [Warning untrustedMessage] else [])" for r mode
    by (simp add: preambleOutput_def isVerboseOn_def canTrustSynthesisResult_def
        envWithCheck_def sygusEnv0_def opts0_def)
  have o: "cegisSample (opts (envWithCheck r mode)) = mode" for r mode
    by (simp add: envWithCheck_def sygusEnv0_def opts0_def)
  have dc: "d_conj checkedSolver = conjG" "nm_nextId checkedSolver = 24"
    by (simp_all add: checkedSolver_def declaredSolver_def newSygusSolver_def)
  show ?thesis
    using
      checkSynthSolution_verdict [where env = "envWithCheck UNSAT CEGIS_SAMPLE_NONE"
        and r = UNSAT and v = "[]" and canTrustResult = True and out = "[]"
        and sol_map = "[(funG, solG)]" and ?s0.0 = checkedSolver and conjs = "[]",
        OF init body r v]
      checkSynthSolution_verdict [where env = "envWithCheck SAT CEGIS_SAMPLE_NONE"
        and r = SAT and v = "[]" and canTrustResult = True and out = "[]"
        and sol_map = "[(funG, solG)]" and ?s0.0 = checkedSolver and conjs = "[]",
        OF init body r v]
      checkSynthSolution_verdict [where env = "envWithCheck SAT CEGIS_SAMPLE_TRUST"
        and r = SAT and v = "[]" and canTrustResult = False
        and out = "[Warning untrustedMessage]"
        and sol_map = "[(funG, solG)]" and ?s0.0 = checkedSolver and conjs = "[]",
        OF init body r v]
      checkSynthSolution_verdict [where env = "envWithCheck Result.UNKNOWN CEGIS_SAMPLE_NONE"
        and r = Result.UNKNOWN and v = "[]" and canTrustResult = True and out = "[]"
        and sol_map = "[(funG, solG)]" and ?s0.0 = checkedSolver and conjs = "[]",
        OF init body r v]
    by (simp add: subs p o dc del: checkConjectures.simps(2))
qed

section \<open>Properties of SygusSolver: the synthesis result\<close>

text \<open>The environment with a given raw result and a given answer of the quantifiers engine.\<close>

definition envRaw :: "Result \<Rightarrow> (Node \<times> (Node \<times> Node) list) list option \<Rightarrow> SygusEnv" where
  "envRaw r sols = sygusEnv0\<lparr>mainCheckSat := (\<lambda>_. r), qeGetSynthSolutions := (\<lambda>_. sols)\<rparr>"

text \<open>
  C1. Whenever \<open>checkSynth\<close> returns a result, the conjecture was refreshed, the raw check
  gave some result \<open>r\<close> and \<open>getSynthSolutions\<close> answered; the status returned is SOLUTION
  when \<open>getSynthSolutions\<close> succeeded, whatever \<open>r\<close> is, NO_SOLUTION when it did not and
  \<open>r\<close> is UNSAT, and UNKNOWN in every other case. Conversely, when these three steps
  go through and no solution check is due, \<open>checkSynth\<close> does return that result.
\<close>

theorem checkSynth_result:
  "(checkSynth env as isNext s = (out, Inr (sr, s')) \<longrightarrow>
      (\<exists>s1 r ret sol_map.
         refreshConjecture env as isNext s = Inr s1 \<and> rawCheckSat env s1 = Inr r \<and>
         getSynthSolutions env s1 [] = Inr (ret, sol_map) \<and>
         sr = SynthResult (if ret then SOLUTION else if r = UNSAT then NO_SOLUTION else UNKNOWN)
                UNKNOWN_REASON)) \<and>
   (refreshConjecture env as isNext s = Inr s1 \<and> rawCheckSat env s1 = Inr r \<and>
    getSynthSolutions env s1 [] = Inr (ret, sol_map) \<and> \<not> (ret \<and> checkSynthSol (opts env)) \<longrightarrow>
      checkSynth env as isNext s =
        ([], Inr (SynthResult (if ret then SOLUTION else if r = UNSAT then NO_SOLUTION else UNKNOWN)
                    UNKNOWN_REASON, s1)))"
proof (intro conjI impI)
  assume a: "checkSynth env as isNext s = (out, Inr (sr, s'))"
  then obtain s1 where s1: "refreshConjecture env as isNext s = Inr s1"
    by (cases "refreshConjecture env as isNext s") (simp_all add: checkSynth_def)
  with a obtain r where r: "rawCheckSat env s1 = Inr r"
    by (cases "rawCheckSat env s1") (simp_all add: checkSynth_def)
  with a s1 obtain ret sol_map where g: "getSynthSolutions env s1 [] = Inr (ret, sol_map)"
    by (cases "getSynthSolutions env s1 []") (auto simp: checkSynth_def)
  have "sr = SynthResult (if ret then SOLUTION else if r = UNSAT then NO_SOLUTION else UNKNOWN)
                UNKNOWN_REASON"
    using a s1 r g
    by (auto simp: checkSynth_def Let_def split: if_splits prod.splits sum.splits)
  with s1 r g show "\<exists>s1 r ret sol_map.
         refreshConjecture env as isNext s = Inr s1 \<and> rawCheckSat env s1 = Inr r \<and>
         getSynthSolutions env s1 [] = Inr (ret, sol_map) \<and>
         sr = SynthResult (if ret then SOLUTION else if r = UNSAT then NO_SOLUTION else UNKNOWN)
                UNKNOWN_REASON"
    by blast
next
  assume "refreshConjecture env as isNext s = Inr s1 \<and> rawCheckSat env s1 = Inr r \<and>
    getSynthSolutions env s1 [] = Inr (ret, sol_map) \<and> \<not> (ret \<and> checkSynthSol (opts env))"
  then show "checkSynth env as isNext s =
        ([], Inr (SynthResult (if ret then SOLUTION else if r = UNSAT then NO_SOLUTION else UNKNOWN)
                    UNKNOWN_REASON, s1))"
    by (auto simp: checkSynth_def)
qed

lemma refresh_envRaw:
  "refreshConjecture (envRaw r sols) noAssertions False declaredSolver = Inr checkedSolver"
  by (simp add: refreshConjecture_def constructConjecture_def conjectureBody_def
      usingSygusSubsolver_def envRaw_def sygusEnv0_def opts0_def declaredSolver_def
      newSygusSolver_def checkedSolver_def conjG_def fixtureMkAnd_def notNode_def child_def
      constraintG_def funG_def funF_def varX_def Let_def)

lemma raw_envRaw: "rawCheckSat (envRaw r sols) s = Inr r"
  by (simp add: rawCheckSat_def usingSygusSubsolver_def envRaw_def sygusEnv0_def opts0_def)

lemma sols_envRaw_none: "getSynthSolutions (envRaw r None) s [] = Inr (False, [])"
  by (simp add: getSynthSolutions_def getSubsolverSynthSolutions_def usingSygusSubsolver_def
      envRaw_def sygusEnv0_def opts0_def)

lemma sols_envRaw_some:
  "getSynthSolutions (envRaw r (Some [(conjG, [(funG, solG)])])) checkedSolver [] =
     Inr (True, [(funG, solG), (funF, fixturePlaceholder funF)])"
  by (simp add: getSynthSolutions_def getSubsolverSynthSolutions_def usingSygusSubsolver_def
      envRaw_def sygusEnv0_def opts0_def checkedSolver_def fixturePlaceholder_def funF_def
      funG_def)

theorem checkSynth_result_witness:
  "checkSynth (envRaw UNSAT (Some [(conjG, [(funG, solG)])])) noAssertions False declaredSolver =
     ([], Inr (SynthResult SOLUTION UNKNOWN_REASON, checkedSolver)) \<and>
   checkSynth (envRaw Result.UNKNOWN (Some [(conjG, [(funG, solG)])])) noAssertions False
       declaredSolver =
     ([], Inr (SynthResult SOLUTION UNKNOWN_REASON, checkedSolver)) \<and>
   checkSynth (envRaw UNSAT None) noAssertions False declaredSolver =
     ([], Inr (SynthResult NO_SOLUTION UNKNOWN_REASON, checkedSolver)) \<and>
   checkSynth (envRaw SAT None) noAssertions False declaredSolver =
     ([], Inr (SynthResult UNKNOWN UNKNOWN_REASON, checkedSolver)) \<and>
   checkSynth (envRaw Result.UNKNOWN None) noAssertions False declaredSolver =
     ([], Inr (SynthResult UNKNOWN UNKNOWN_REASON, checkedSolver))"
proof -
  have o: "checkSynthSol (opts (envRaw r sols)) = False" for r sols
    by (simp add: envRaw_def sygusEnv0_def opts0_def)
  note th = checkSynth_result [THEN conjunct2, rule_format, OF conjI, OF refresh_envRaw conjI,
      OF raw_envRaw conjI]
  show ?thesis
    using th [OF sols_envRaw_some [of UNSAT]] th [OF sols_envRaw_some [of Result.UNKNOWN]]
      th [OF sols_envRaw_none [of UNSAT]] th [OF sols_envRaw_none [of SAT]]
      th [OF sols_envRaw_none [of Result.UNKNOWN]]
    by (simp add: o)
qed

section \<open>Properties of SygusSolver: declarations and constraints\<close>

text \<open>The variables the claim speaks of, numbered from the node manager's counter.\<close>

fun freshVars :: "nat \<Rightarrow> TypeNode list \<Rightarrow> Node list" where
  "freshVars n [] = []"
| "freshVars n (tn # tns) = Leaf BOUND_VARIABLE n None tn # freshVars (n + 2) tns"

fun freshPrimedVars :: "SygusEnv \<Rightarrow> nat \<Rightarrow> TypeNode list \<Rightarrow> Node list" where
  "freshPrimedVars env n [] = []"
| "freshPrimedVars env n (tn # tns) =
     Leaf BOUND_VARIABLE (n + 1)
       (Some (nodeToString env (Leaf BOUND_VARIABLE n None tn) @ [CHR 0x27])) tn
     # freshPrimedVars env (n + 2) tns"

fun interleave :: "'a list \<Rightarrow> 'a list \<Rightarrow> 'a list" where
  "interleave (x # xs) (y # ys) = x # y # interleave xs ys"
| "interleave _ _ = []"

fun leafId :: "Node \<Rightarrow> nat" where
  "leafId (Leaf _ i _ _) = i"
| "leafId _ = 0"

lemma mkInvVars_eq:
  "mkInvVars env tys (vars, primed_vars, s) =
     (vars @ freshVars (nm_nextId s) tys,
      primed_vars @ freshPrimedVars env (nm_nextId s) tys,
      s\<lparr>nm_nextId := nm_nextId s + 2 * length tys,
        d_sygusVars := d_sygusVars s @
          interleave (freshVars (nm_nextId s) tys) (freshPrimedVars env (nm_nextId s) tys)\<rparr>)"
proof (induction tys arbitrary: vars primed_vars s)
  case Nil
  then show ?case by simp
next
  case (Cons tn tns)
  show ?case
    by (simp add: Let_def Cons.IH)
qed

lemma mkInvTerms_eq:
  "mkInvTerms vars primed_vars [0, Suc 0, 2, 3] [i, p, t, q] =
     [App APPLY_UF (i # vars), App APPLY_UF (p # vars),
      App APPLY_UF (t # vars @ primed_vars), App APPLY_UF (q # vars),
      App APPLY_UF (i # primed_vars)]"
  by (simp add: Let_def)

lemma freshVars_ids:
  "map leafId (freshVars n tys) = map (\<lambda>k. n + 2 * k) [0 ..< length tys]"
proof (induction tys arbitrary: n)
  case Nil
  then show ?case by simp
next
  case (Cons tn tns)
  have "map (\<lambda>k. n + 2 * k) [0 ..< Suc (length tns)] =
        n # map (\<lambda>k. n + 2 * k) (map Suc [0 ..< length tns])"
    by (simp only: upt_conv_Cons [of 0] map_Suc_upt [symmetric]) simp
  then show ?case by (simp add: Cons.IH comp_def)
qed

lemma freshPrimedVars_ids:
  "map leafId (freshPrimedVars env n tys) = map (\<lambda>k. n + 2 * k + 1) [0 ..< length tys]"
proof (induction tys arbitrary: n)
  case Nil
  then show ?case by simp
next
  case (Cons tn tns)
  have "map (\<lambda>k. n + 2 * k + 1) [0 ..< Suc (length tns)] =
        (n + 1) # map (\<lambda>k. n + 2 * k + 1) (map Suc [0 ..< length tns])"
    by (simp only: upt_conv_Cons [of 0] map_Suc_upt [symmetric]) simp
  then show ?case by (simp add: Cons.IH comp_def)
qed

lemma fresh_ids_distinct:
  "distinct (map leafId (freshVars n tys @ freshPrimedVars env n tys))"
proof -
  have 1: "distinct (map (\<lambda>k. n + 2 * k) [0 ..< length tys])"
    by (simp add: distinct_map inj_on_def)
  have 2: "distinct (map (\<lambda>k. n + 2 * k + 1) [0 ..< length tys])"
    by (simp add: distinct_map inj_on_def)
  have 3: "set (map (\<lambda>k. n + 2 * k) [0 ..< length tys]) \<inter>
           set (map (\<lambda>k. n + 2 * k + 1) [0 ..< length tys]) = {}"
    by (auto; presburger)
  show ?thesis
    using 1 2 3 by (simp add: freshVars_ids freshPrimedVars_ids)
qed

lemma fresh_ids_ge:
  "list_all (\<lambda>v. n \<le> leafId v) (freshVars n tys @ freshPrimedVars env n tys)"
proof -
  have "list_all (\<lambda>i. n \<le> i) (map leafId (freshVars n tys @ freshPrimedVars env n tys))"
    by (auto simp: freshVars_ids freshPrimedVars_ids list_all_iff)
  then show ?thesis by (auto simp: list_all_iff)
qed


text \<open>
  C5. For an invariant \<open>inv\<close> of function type, \<open>assertSygusInvConstraint\<close> returns
  normally and appends exactly one constraint: the conjunction of \<open>Pre(vars) \<Rightarrow> Inv(vars)\<close>,
  \<open>(Inv(vars) \<and> Trans(vars, vars')) \<Rightarrow> Inv(vars')\<close> and \<open>Inv(vars) \<Rightarrow> Post(vars)\<close>. For
  each argument type of \<open>inv\<close>, in order, one regular and one primed bound variable of
  that type are created, with identifiers not used before (at or above the node manager's
  counter, pairwise distinct), and both are appended to the declared variables. The
  assumptions and the functions to synthesize are unchanged and the conjecture is stale.
\<close>

theorem assertSygusInvConstraint_encoding:
  assumes "getType env inv_fn = FunctionType tys rng"
  shows "\<exists>s'. assertSygusInvConstraint env inv_fn pre trans_fn post s = Inr s' \<and>
     (let vars = freshVars (nm_nextId s) tys;
          primed = freshPrimedVars env (nm_nextId s) tys
      in d_sygusConstraints s' = d_sygusConstraints s @
           [App AND
              [App IMPLIES [App APPLY_UF (pre # vars), App APPLY_UF (inv_fn # vars)],
               App IMPLIES [App AND [App APPLY_UF (inv_fn # vars),
                                     App APPLY_UF (trans_fn # vars @ primed)],
                            App APPLY_UF (inv_fn # primed)],
               App IMPLIES [App APPLY_UF (inv_fn # vars), App APPLY_UF (post # vars)]]] \<and>
         d_sygusVars s' = d_sygusVars s @ interleave vars primed \<and>
         d_sygusConjectureStale s' \<and>
         d_sygusAssumps s' = d_sygusAssumps s \<and>
         d_sygusFunSymbols s' = d_sygusFunSymbols s \<and>
         length vars = length tys \<and> length primed = length tys \<and>
         map leafType vars = tys \<and> map leafType primed = tys \<and>
         list_all (\<lambda>v. getKind v = Some BOUND_VARIABLE \<and> nm_nextId s \<le> leafId v) (vars @ primed) \<and>
         distinct (map leafId (vars @ primed)) \<and>
         nm_nextId s' = nm_nextId s + 2 * length tys)"
proof -
  let ?vars = "freshVars (nm_nextId s) tys"
  let ?primed = "freshPrimedVars env (nm_nextId s) tys"
  have l: "length (freshVars n tys) = length tys" "length (freshPrimedVars env n tys) = length tys"
    "map leafType (freshVars n tys) = tys" "map leafType (freshPrimedVars env n tys) = tys"
    "list_all (\<lambda>v. getKind v = Some BOUND_VARIABLE) (freshVars n tys)"
    "list_all (\<lambda>v. getKind v = Some BOUND_VARIABLE) (freshPrimedVars env n tys)" for n
    by (induction tys arbitrary: n) simp_all
  have k: "list_all (\<lambda>v. getKind v = Some BOUND_VARIABLE \<and> nm_nextId s \<le> leafId v)
             (?vars @ ?primed)"
    using l(5,6) [of "nm_nextId s"] fresh_ids_ge [of "nm_nextId s" tys env]
    by (auto simp: list_all_iff)
  show ?thesis
    using assms l(1-4) [of "nm_nextId s"] k fresh_ids_distinct [of "nm_nextId s" tys env]
    by (simp add: assertSygusInvConstraint_def getArgTypes_def mkInvVars_eq mkInvTerms_eq
        Let_def del: mkInvTerms.simps)
qed


text \<open>An invariant problem over one integer argument.\<close>

definition invI :: Node where
  "invI = Leaf VARIABLE 30 (Some ''inv'') (FunctionType [IntType] BoolType)"
definition preI :: Node where
  "preI = Leaf VARIABLE 31 (Some ''pre'') (FunctionType [IntType] BoolType)"
definition transI :: Node where
  "transI = Leaf VARIABLE 32 (Some ''trans'') (FunctionType [IntType, IntType] BoolType)"
definition postI :: Node where
  "postI = Leaf VARIABLE 33 (Some ''post'') (FunctionType [IntType] BoolType)"
definition invX :: Node where
  "invX = Leaf BOUND_VARIABLE 0 None IntType"
definition invX' :: Node where
  "invX' = Leaf BOUND_VARIABLE 1 (Some (''v'' @ [CHR 0x27])) IntType"

theorem assertSygusInvConstraint_encoding_witness:
  "getType sygusEnv0 invI = FunctionType [IntType] BoolType \<and>
   assertSygusInvConstraint sygusEnv0 invI preI transI postI newSygusSolver =
     Inr (newSygusSolver
            \<lparr>d_sygusVars := [invX, invX'],
             d_sygusConstraints :=
               [App AND
                  [App IMPLIES [App APPLY_UF [preI, invX], App APPLY_UF [invI, invX]],
                   App IMPLIES [App AND [App APPLY_UF [invI, invX],
                                         App APPLY_UF [transI, invX, invX']],
                                App APPLY_UF [invI, invX']],
                   App IMPLIES [App APPLY_UF [invI, invX], App APPLY_UF [postI, invX]]]],
             d_sygusConjectureStale := True, nm_nextId := 2\<rparr>)"
  using assertSygusInvConstraint_encoding
    [where env = sygusEnv0 and inv_fn = invI and tys = "[IntType]" and rng = BoolType
       and pre = preI and trans_fn = transI and post = postI and s = newSygusSolver]
  by (simp add: assertSygusInvConstraint_def getArgTypes_def sygusEnv0_def invI_def
      newSygusSolver_def invX_def invX'_def fixtureShow_def Let_def)

text \<open>
  Whether asserting a node reaches at least one constraint that is not a conjunction:
  an empty conjunction asserts nothing.
\<close>

fun hasConjunct :: "Node \<Rightarrow> bool" and hasConjunctList :: "Node list \<Rightarrow> bool" where
  "hasConjunct (App k cs) = (if k = AND then hasConjunctList cs else True)"
| "hasConjunct (Leaf k i nm t) = True"
| "hasConjunct NullNode = True"
| "hasConjunctList [] = False"
| "hasConjunctList (n # ns) = (if hasConjunct n then True else hasConjunctList ns)"

lemma assertSygusConstraint_stale:
  "(\<forall>s'. assertSygusConstraint n a s = Inr s' \<longrightarrow>
      (d_sygusConjectureStale s \<or> hasConjunct n \<longrightarrow> d_sygusConjectureStale s'))"
  "(\<forall>s'. assertSygusConstraints ns a s = Inr s' \<longrightarrow>
      (d_sygusConjectureStale s \<or> hasConjunctList ns \<longrightarrow> d_sygusConjectureStale s'))"
proof (induction n a s and ns a s rule: assertSygusConstraint_assertSygusConstraints.induct)
  case (1 k cs isAssume s)
  then show ?case
    by (auto simp: Let_def split: list.splits if_splits)
next
  case (4 nc ncs isAssume s)
  show ?case
  proof (intro allI impI)
    fix s'
    assume r: "assertSygusConstraints (nc # ncs) isAssume s = Inr s'"
      and h: "d_sygusConjectureStale s \<or> hasConjunctList (nc # ncs)"
    from r obtain s1 where s1: "assertSygusConstraint nc isAssume s = Inr s1"
      and s2: "assertSygusConstraints ncs isAssume s1 = Inr s'"
      by (cases "assertSygusConstraint nc isAssume s") simp_all
    show "d_sygusConjectureStale s'"
    proof (cases "d_sygusConjectureStale s \<or> hasConjunct nc")
      case True
      with "4.IH"(1) s1 have "d_sygusConjectureStale s1" by blast
      with "4.IH"(2) [OF s1] s2 show ?thesis by blast
    next
      case False
      with h have "hasConjunctList ncs" by simp
      with "4.IH"(2) [OF s1] s2 show ?thesis by blast
    qed
  qed
qed (simp_all add: Let_def)


lemma declareSynthFun_stale:
  "declareSynthFun env fn sygusType isInv vars s = Inr s' \<Longrightarrow> d_sygusConjectureStale s'"
  by (auto simp: declareSynthFun_def Let_def split: if_splits sum.splits)

lemma assertSygusInvConstraint_stale:
  "assertSygusInvConstraint env inv_fn pre trans_fn post s = Inr s' \<Longrightarrow> d_sygusConjectureStale s'"
  by (auto simp: assertSygusInvConstraint_def Let_def split: sum.splits prod.splits)

lemma refreshConjecture_stale:
  assumes "d_sygusConjectureStale s"
  shows "refreshConjecture env as isNext s = constructConjecture env as s"
proof -
  have "s\<lparr>d_sygusConjectureStale := True\<rparr> = s\<lparr>d_sygusConjectureStale := d_sygusConjectureStale s\<rparr>"
    using assms by simp
  then have e: "s\<lparr>d_sygusConjectureStale := True\<rparr> = s" by simp
  show ?thesis
    using assms by (simp add: refreshConjecture_def Let_def e)
qed

text \<open>
  C2 (as amended). \<open>declareSynthFun\<close> (when it returns without a logic exception),
  \<open>assertSygusConstraint\<close> (on a node that reaches at least one constraint) and
  \<open>assertSygusInvConstraint\<close> leave the staleness flag true, and with the flag true the
  next \<open>checkSynth\<close> reconstructs the conjecture. \<open>declareSygusVar\<close> leaves the flag
  as it was.
\<close>

theorem declare_assert_staleness:
  "d_sygusConjectureStale (declareSygusVar var s) = d_sygusConjectureStale s \<and>
   (declareSynthFun env fn sygusType isInv vars s = Inr s' \<longrightarrow> d_sygusConjectureStale s') \<and>
   (assertSygusConstraint n isAssume s = Inr s' \<and> hasConjunct n \<longrightarrow> d_sygusConjectureStale s') \<and>
   (assertSygusInvConstraint env inv_fn pre trans_fn post s = Inr s' \<longrightarrow>
      d_sygusConjectureStale s') \<and>
   (d_sygusConjectureStale s \<longrightarrow>
      refreshConjecture env as isNext s = constructConjecture env as s)"
  using declareSynthFun_stale [of env fn sygusType isInv vars s s']
    assertSygusConstraint_stale(1) [of n isAssume s]
    assertSygusInvConstraint_stale [of env inv_fn pre trans_fn post s s']
    refreshConjecture_stale [of s env as isNext]
  by (simp add: declareSygusVar_def)

text \<open>Incremental mode, and the solver after a first \<open>checkSynth\<close> in it.\<close>

definition sygusEnvInc :: SygusEnv where
  "sygusEnvInc = sygusEnv0\<lparr>opts := opts0\<lparr>incrementalSolving := True\<rparr>\<rparr>"

definition conjInc :: Node where
  "conjInc = App FORALL [App BOUND_VAR_LIST [funG, funF],
               App EXISTS [App BOUND_VAR_LIST [varX], App NOT [constraintG]]]"

definition incSolver :: SygusSolver where
  "incSolver =
     declaredSolver
       \<lparr>d_sygusConjectureStale := False, d_subsolverCd := Some 0,
        d_subsolver := Some \<lparr>seId = 0, seDefinedFunctions = [], seAssertions = [conjInc],
                             seCheckSynthSol = False, seSygusRecFun = True\<rparr>,
        d_conj := conjInc, nextEngineId := 1\<rparr>"

lemma incSolver_reached:
  "checkSynth sygusEnvInc noAssertions False declaredSolver =
     ([], Inr (SynthResult SOLUTION UNKNOWN_REASON, incSolver))"
  by (simp add: checkSynth_def refreshConjecture_def constructConjecture_def conjectureBody_def
      initializeSygusSubsolver_def rawCheckSat_def getSynthSolutions_def
      usingSygusSubsolver_def sygusEnvInc_def sygusEnv0_def opts0_def declaredSolver_def
      newSygusSolver_def incSolver_def conjInc_def fixtureMkAnd_def notNode_def
      noAssertions_def constraintG_def funG_def funF_def varX_def Let_def)

theorem declare_assert_staleness_witness:
  "declareSynthFun sygusEnv0 funG NullType False [] (newSygusSolver\<lparr>d_sygusConjectureStale := False\<rparr>) =
     Inr (newSygusSolver\<lparr>d_sygusFunSymbols := [funG]\<rparr>) \<and>
   hasConjunct (App AND [constraintG, constraintG]) \<and>
   assertSygusConstraint (App AND [constraintG, constraintG]) False
       (newSygusSolver\<lparr>d_sygusConjectureStale := False\<rparr>) =
     Inr (newSygusSolver\<lparr>d_sygusConstraints := [constraintG, constraintG]\<rparr>) \<and>
   d_sygusConjectureStale
     (case assertSygusInvConstraint sygusEnv0 invI preI transI postI
             (newSygusSolver\<lparr>d_sygusConjectureStale := False\<rparr>) of
        Inl e \<Rightarrow> newSygusSolver\<lparr>d_sygusConjectureStale := False\<rparr> | Inr s' \<Rightarrow> s') \<and>
   d_sygusConjectureStale (declareSygusVar varZ incSolver) = False \<and>
   d_sygusConjectureStale declaredSolver \<and>
   refreshConjecture sygusEnv0 noAssertions True declaredSolver =
     constructConjecture sygusEnv0 noAssertions declaredSolver"
  using declare_assert_staleness
    [where env = sygusEnv0 and s = "newSygusSolver\<lparr>d_sygusConjectureStale := False\<rparr>"
       and var = varZ and fn = funG and sygusType = NullType and isInv = False and vars = "[]"
       and s' = "newSygusSolver\<lparr>d_sygusFunSymbols := [funG]\<rparr>"]
    declare_assert_staleness
    [where env = sygusEnv0 and s = "newSygusSolver\<lparr>d_sygusConjectureStale := False\<rparr>"
       and n = "App AND [constraintG, constraintG]" and isAssume = False
       and s' = "newSygusSolver\<lparr>d_sygusConstraints := [constraintG, constraintG]\<rparr>"]
    declare_assert_staleness
    [where env = sygusEnv0 and s = declaredSolver and as = noAssertions and isNext = True
       and var = varZ]
    declare_assert_staleness
    [where env = sygusEnv0 and s = incSolver and var = varZ]
  by (simp add: declareSynthFun_def newSygusSolver_def declaredSolver_def incSolver_def
      constraintG_def assertSygusInvConstraint_def getArgTypes_def sygusEnv0_def invI_def
      declareSygusVar_def Let_def mkInvVars_eq del: mkInvTerms.simps)

text \<open>
  C2 (as stated) fails for \<open>declareSygusVar\<close>: in incremental mode, after a first
  \<open>checkSynth\<close>, declaring a variable leaves the flag false, and the next
  \<open>checkSynth\<close> with \<open>isNext\<close> keeps the stored conjecture although the body built from
  the declarations has changed.
\<close>

theorem declareSygusVar_keeps_conjecture:
  "checkSynth sygusEnvInc noAssertions False declaredSolver =
     ([], Inr (SynthResult SOLUTION UNKNOWN_REASON, incSolver)) \<and>
   d_sygusConjectureStale (declareSygusVar varZ incSolver) = False \<and>
   refreshConjecture sygusEnvInc noAssertions True (declareSygusVar varZ incSolver) =
     Inr (declareSygusVar varZ incSolver) \<and>
   d_conj (declareSygusVar varZ incSolver) = d_conj incSolver \<and>
   conjectureBody sygusEnvInc (declareSygusVar varZ incSolver) \<noteq>
     conjectureBody sygusEnvInc incSolver"
proof -
  have 1: "d_sygusConjectureStale (declareSygusVar varZ incSolver) = False"
    "d_conj (declareSygusVar varZ incSolver) = d_conj incSolver"
    by (simp_all add: declareSygusVar_def incSolver_def)
  have 2: "refreshConjecture sygusEnvInc noAssertions True (declareSygusVar varZ incSolver) =
     Inr (declareSygusVar varZ incSolver)"
    by (simp add: refreshConjecture_def usingSygusSubsolver_def sygusEnvInc_def sygusEnv0_def
        opts0_def declareSygusVar_def incSolver_def Let_def)
  have 3: "conjectureBody sygusEnvInc (declareSygusVar varZ incSolver) \<noteq>
     conjectureBody sygusEnvInc incSolver"
    by (simp add: conjectureBody_def declareSygusVar_def incSolver_def declaredSolver_def
        newSygusSolver_def varX_def varZ_def Let_def)
  show ?thesis
    using incSolver_reached 1 2 3 by simp
qed

section \<open>Properties of SygusSolver: trivial functions\<close>

text \<open>
  The declared range (output) type of a function to synthesize, as the claim words it:
  the result type of a function type, and the type itself when there are no arguments.
\<close>

fun getRangeType :: "TypeNode \<Rightarrow> TypeNode" where
  "getRangeType (FunctionType _ r) = r"
| "getRangeType t = t"

lemma addGrammarSymbols_mono: "set vs \<subseteq> set (addGrammarSymbols env attr fs vs)"
proof (induction fs arbitrary: vs)
  case Nil
  then show ?case by simp
next
  case (Cons f fs)
  have a: "set vs \<subseteq> set (addGrammarSymbols env attr fs (vs @ ws))" for ws
    using Cons.IH [of "vs @ ws"] by simp
  show ?case
    using Cons.IH [of vs] a by (cases "map_of attr f") simp_all
qed

lemma trivialityPasses_trivial:
  assumes r: "trivialityPasses env attr funs [0, Suc 0] vs [] t0 = (ntriv, triv)"
    and f: "f \<in> set funs"
    and g: "f \<notin> set (addGrammarSymbols env attr (filter (\<lambda>g. g \<in> set vs) funs) vs)"
  shows "f \<in> set triv \<and> f \<notin> set ntriv"
proof -
  let ?vs1 = "addGrammarSymbols env attr (filter (\<lambda>g. g \<in> set vs) funs) vs"
  have nv: "f \<notin> set vs"
    using g addGrammarSymbols_mono [of vs env attr "filter (\<lambda>g. g \<in> set vs) funs"] by blast
  then have ne: "filter (\<lambda>f. f \<notin> set vs) funs \<noteq> []"
    using f by (auto simp: filter_empty_conv)
  show ?thesis
  proof (cases "length (remdups ?vs1) = length (remdups vs)")
    case True
    then have "ntriv = filter (\<lambda>f. f \<in> set vs) funs" "triv = filter (\<lambda>f. f \<notin> set vs) funs"
      using r ne by (simp_all add: Let_def)
    then show ?thesis using f nv by simp
  next
    case False
    then have "ntriv = filter (\<lambda>f. f \<in> set vs) funs @ filter (\<lambda>f. f \<in> set ?vs1) funs"
      "triv = filter (\<lambda>f. f \<notin> set ?vs1) funs"
      using r ne by (simp_all add: Let_def)
    then show ?thesis using f nv g by simp
  qed
qed

lemma map_of_setEntry:
  "map_of (setEntry k v kvs) k' = (if k' = k then Some v else map_of kvs k')"
  by (induction kvs) auto

lemma addTrivialSolutions_keeps:
  "addTrivialSolutions env fs m = Inr m' \<Longrightarrow> map_of m f = Some (mkSygusTermFor env f) \<Longrightarrow>
   map_of m' f = Some (mkSygusTermFor env f)"
proof (induction fs arbitrary: m)
  case Nil
  then show ?case by simp
next
  case (Cons g fs)
  from Cons.prems(1) have
    "addTrivialSolutions env fs (setEntry g (mkSygusTermFor env g) m) = Inr m'"
    by (simp add: Let_def split: if_splits)
  moreover have "map_of (setEntry g (mkSygusTermFor env g) m) f = Some (mkSygusTermFor env f)"
    using Cons.prems(2) by (simp add: map_of_setEntry)
  ultimately show ?case by (rule Cons.IH)
qed

lemma addTrivialSolutions_placeholder:
  "addTrivialSolutions env fs m = Inr m' \<Longrightarrow> f \<in> set fs \<Longrightarrow>
   map_of m' f = Some (mkSygusTermFor env f) \<and>
   (assertionsOn env \<longrightarrow> getType env (mkSygusTermFor env f) = getType env f)"
proof (induction fs arbitrary: m)
  case Nil
  then show ?case by simp
next
  case (Cons g fs)
  from Cons.prems(1) have a: "\<not> (assertionsOn env \<and> getType env g \<noteq> getType env (mkSygusTermFor env g))"
    and r: "addTrivialSolutions env fs (setEntry g (mkSygusTermFor env g) m) = Inr m'"
    by (simp_all add: Let_def split: if_splits)
  show ?case
  proof (cases "f = g")
    case True
    have "map_of (setEntry g (mkSygusTermFor env g) m) f = Some (mkSygusTermFor env f)"
      using True by (simp add: map_of_setEntry)
    from addTrivialSolutions_keeps [OF r this] a True show ?thesis by auto
  next
    case False
    with Cons.prems(2) have "f \<in> set fs" by simp
    from Cons.IH [OF r this] show ?thesis .
  qed
qed

lemma getSynthSolutions_placeholder:
  assumes "getSynthSolutions env s1 solMap = Inr (True, solMap')" "f \<in> set (d_trivialFuns s1)"
  shows "map_of solMap' f = Some (mkSygusTermFor env f) \<and>
   (assertionsOn env \<longrightarrow> getType env (mkSygusTermFor env f) = getType env f)"
proof -
  from assms(1) obtain m1 where "addTrivialSolutions env (d_trivialFuns s1) m1 = Inr solMap'"
    by (auto simp: getSynthSolutions_def split: prod.splits if_splits sum.splits)
  from addTrivialSolutions_placeholder [OF this assms(2)] show ?thesis .
qed

lemma constructConjecture_trivial:
  assumes mode: "\<not> sygusStream (opts env)" "\<not> incrementalSolving (opts env)"
    and c: "constructConjecture env as s = Inr s1"
    and pp: "(if getKind (conjectureBody env s) = Some EXISTS
              then child (conjectureBody env s) 1 else Inr (conjectureBody env s)) = Inr ppBody0"
    and f: "f \<in> set (d_sygusFunSymbols s)"
    and g: "f \<notin> set (addGrammarSymbols env (sygusTypeAttr s)
              (filter (\<lambda>g. g \<in> set (getVariables env (rewrite env (applySubstitutions env ppBody0))))
                 (d_sygusFunSymbols s))
              (getVariables env (rewrite env (applySubstitutions env ppBody0))))"
  shows "f \<in> set (d_trivialFuns s1) \<and>
     (\<exists>ntriv. f \<notin> set ntriv \<and>
        d_conj s1 = (if ntriv \<noteq> [] then mkSygusConjecture env ntriv (conjectureBody env s)
                     else conjectureBody env s))"
proof -
  let ?vs = "getVariables env (rewrite env (applySubstitutions env ppBody0))"
  obtain ntriv triv where t: "trivialityPasses env (sygusTypeAttr s) (d_sygusFunSymbols s)
      [0, Suc 0] ?vs [] (d_trivialFuns s) = (ntriv, triv)"
    by (cases "trivialityPasses env (sygusTypeAttr s) (d_sygusFunSymbols s)
      [0, Suc 0] ?vs [] (d_trivialFuns s)") simp
  from trivialityPasses_trivial [OF t f g] have ft: "f \<in> set triv" "f \<notin> set ntriv" by simp_all
  have s1: "s1 = s\<lparr>d_trivialFuns := triv, d_sygusConjectureStale := False,
        d_conj := (if ntriv \<noteq> [] then mkSygusConjecture env ntriv (conjectureBody env s)
                   else conjectureBody env s)\<rparr>"
    using c mode pp t
    by (simp add: constructConjecture_def usingSygusSubsolver_def Let_def
        del: trivialityPasses.simps)
  show ?thesis
    using ft by (auto simp: s1)
qed


lemma refreshConjecture_not_next:
  "refreshConjecture env as False s =
     constructConjecture env as (s\<lparr>d_sygusConjectureStale := True\<rparr>)"
  by (simp add: refreshConjecture_def Let_def)

text \<open>
  C6 (as amended). Outside streaming and incremental mode, when \<open>checkSynth\<close> rebuilds
  the conjecture, a declared function \<open>f\<close> that is not among the variables of the
  substituted, rewritten body, nor among the symbols added from the grammars of the
  functions that do occur there, is placed in the trivial set and is not among the
  functions the conjecture is built over. On a successful \<open>getSynthSolutions\<close> its
  solution is the placeholder \<open>mkSygusTermFor f\<close>, and in a build with assertions this
  term has the type of \<open>f\<close> itself (for a function with arguments, its function type).
\<close>

theorem trivial_functions_placeholder:
  assumes mode: "\<not> sygusStream (opts env)" "\<not> incrementalSolving (opts env)"
    and c: "refreshConjecture env as False s = Inr s1"
    and pp: "(if getKind (conjectureBody env s) = Some EXISTS
              then child (conjectureBody env s) 1 else Inr (conjectureBody env s)) = Inr ppBody0"
    and vs: "vs = getVariables env (rewrite env (applySubstitutions env ppBody0))"
    and f: "f \<in> set (d_sygusFunSymbols s)"
    and nocc: "f \<notin> set vs"
    and ngram: "f \<notin> set (addGrammarSymbols env (sygusTypeAttr s)
                  (filter (\<lambda>g. g \<in> set vs) (d_sygusFunSymbols s)) vs)"
  shows "f \<in> set (d_trivialFuns s1) \<and>
     (\<exists>ntriv. f \<notin> set ntriv \<and>
        d_conj s1 = (if ntriv \<noteq> [] then mkSygusConjecture env ntriv (conjectureBody env s)
                     else conjectureBody env s)) \<and>
     (getSynthSolutions env s1 solMap = Inr (True, solMap') \<longrightarrow>
        map_of solMap' f = Some (mkSygusTermFor env f) \<and>
        (assertionsOn env \<longrightarrow> getType env (mkSygusTermFor env f) = getType env f))"
proof -
  let ?s = "s\<lparr>d_sygusConjectureStale := True\<rparr>"
  have b: "conjectureBody env ?s = conjectureBody env s"
    by (simp add: conjectureBody_def Let_def)
  have c': "constructConjecture env as ?s = Inr s1"
    using c by (simp add: refreshConjecture_not_next)
  have t: "f \<in> set (d_trivialFuns s1) \<and>
     (\<exists>ntriv. f \<notin> set ntriv \<and>
        d_conj s1 = (if ntriv \<noteq> [] then mkSygusConjecture env ntriv (conjectureBody env ?s)
                     else conjectureBody env ?s))"
  proof (rule constructConjecture_trivial [OF mode c'])
    show "(if getKind (conjectureBody env ?s) = Some EXISTS
           then child (conjectureBody env ?s) 1 else Inr (conjectureBody env ?s)) = Inr ppBody0"
      using pp by (simp only: b)
    show "f \<in> set (d_sygusFunSymbols ?s)" using f by simp
    show "f \<notin> set (addGrammarSymbols env (sygusTypeAttr ?s)
              (filter (\<lambda>g. g \<in> set (getVariables env (rewrite env (applySubstitutions env ppBody0))))
                 (d_sygusFunSymbols ?s))
              (getVariables env (rewrite env (applySubstitutions env ppBody0))))"
      using ngram vs by simp
  qed
  then have ft: "f \<in> set (d_trivialFuns s1)" by simp
  show ?thesis
    using t getSynthSolutions_placeholder [of env s1 solMap solMap' f, OF _ ft]
    by (simp only: b) blast
qed

lemma fixture_body:
  "conjectureBody sygusEnv0 declaredSolver =
     App EXISTS [App BOUND_VAR_LIST [varX], App NOT [constraintG]]"
  by (simp add: conjectureBody_def sygusEnv0_def declaredSolver_def newSygusSolver_def
      fixtureMkAnd_def notNode_def Let_def)

lemma fixture_vars:
  "getVariables sygusEnv0 (rewrite sygusEnv0 (applySubstitutions sygusEnv0 (App NOT [constraintG])))
     = [funG, varX, varX]"
  by (simp add: sygusEnv0_def constraintG_def funG_def varX_def)

lemma fixture_solutions:
  "getSynthSolutions sygusEnv0 checkedSolver [] =
     Inr (True, [(funG, solG), (funF, fixturePlaceholder funF)])"
  by (simp add: getSynthSolutions_def getSubsolverSynthSolutions_def usingSygusSubsolver_def
      sygusEnv0_def opts0_def checkedSolver_def fixturePlaceholder_def funF_def funG_def)

theorem trivial_functions_placeholder_witness:
  "\<not> sygusStream (opts sygusEnv0) \<and> \<not> incrementalSolving (opts sygusEnv0) \<and>
   refreshConjecture sygusEnv0 noAssertions False declaredSolver = Inr checkedSolver \<and>
   funF \<in> set (d_sygusFunSymbols declaredSolver) \<and>
   funF \<notin> set [funG, varX, varX] \<and>
   funF \<in> set (d_trivialFuns checkedSolver) \<and>
   d_conj checkedSolver =
     mkSygusConjecture sygusEnv0 [funG] (conjectureBody sygusEnv0 declaredSolver) \<and>
   getSynthSolutions sygusEnv0 checkedSolver [] =
     Inr (True, [(funG, solG), (funF, fixturePlaceholder funF)]) \<and>
   map_of [(funG, solG), (funF, fixturePlaceholder funF)] funF = Some (mkSygusTermFor sygusEnv0 funF) \<and>
   getType sygusEnv0 (mkSygusTermFor sygusEnv0 funF) = getType sygusEnv0 funF"
proof -
  have m: "\<not> sygusStream (opts sygusEnv0)" "\<not> incrementalSolving (opts sygusEnv0)"
    by (simp_all add: sygusEnv0_def opts0_def)
  have pp: "(if getKind (conjectureBody sygusEnv0 declaredSolver) = Some EXISTS
      then child (conjectureBody sygusEnv0 declaredSolver) 1
      else Inr (conjectureBody sygusEnv0 declaredSolver)) = Inr (App NOT [constraintG])"
    by (simp add: fixture_body child_def)
  have f: "funF \<in> set (d_sygusFunSymbols declaredSolver)"
    by (simp add: declaredSolver_def)
  have n: "funF \<notin> set [funG, varX, varX]"
    by (simp add: funF_def funG_def varX_def)
  have a: "addGrammarSymbols sygusEnv0 (sygusTypeAttr declaredSolver)
      (filter (\<lambda>g. g \<in> set [funG, varX, varX]) (d_sygusFunSymbols declaredSolver))
      [funG, varX, varX] = [funG, varX, varX]"
    by (simp add: declaredSolver_def newSygusSolver_def funF_def funG_def varX_def)
  have g: "funF \<notin> set (addGrammarSymbols sygusEnv0 (sygusTypeAttr declaredSolver)
      (filter (\<lambda>g. g \<in> set [funG, varX, varX]) (d_sygusFunSymbols declaredSolver))
      [funG, varX, varX])"
    unfolding a by (rule n)
  have e: "assertionsOn sygusEnv0" "mkSygusTermFor sygusEnv0 = fixturePlaceholder"
    by (simp_all add: sygusEnv0_def)
  have mk: "mkSygusConjecture sygusEnv0 fs b = App FORALL [App BOUND_VAR_LIST fs, b]" for fs b
    by (simp add: sygusEnv0_def)
  have d: "d_conj checkedSolver =
     mkSygusConjecture sygusEnv0 [funG] (conjectureBody sygusEnv0 declaredSolver)"
    by (simp add: fixture_body mk checkedSolver_def conjG_def)
  show ?thesis
    using trivial_functions_placeholder [OF m checkedSolver_reached pp fixture_vars [symmetric]
        f n g, of "[]" "[(funG, solG), (funF, fixturePlaceholder funF)]"]
      m checkedSolver_reached f n fixture_solutions e d
    by simp
qed

text \<open>
  C6 (as stated) fails in its last part: \<open>f\<close>, declared from integers to integers and not
  occurring in the conjecture, is trivial and receives a placeholder whose type is the
  function type of \<open>f\<close>, which is not the range type of \<open>f\<close>.
\<close>

theorem trivial_placeholder_has_function_type:
  "refreshConjecture sygusEnv0 noAssertions False declaredSolver = Inr checkedSolver \<and>
   funF \<in> set (d_trivialFuns checkedSolver) \<and>
   getSynthSolutions sygusEnv0 checkedSolver [] =
     Inr (True, [(funG, solG), (funF, fixturePlaceholder funF)]) \<and>
   getType sygusEnv0 funF = FunctionType [IntType] IntType \<and>
   getRangeType (getType sygusEnv0 funF) = IntType \<and>
   getType sygusEnv0 (fixturePlaceholder funF) = FunctionType [IntType] IntType \<and>
   getType sygusEnv0 (fixturePlaceholder funF) \<noteq> getRangeType (getType sygusEnv0 funF)"
proof -
  have "funF \<in> set (d_trivialFuns checkedSolver)"
    by (simp add: checkedSolver_def)
  moreover have "getType sygusEnv0 funF = FunctionType [IntType] IntType"
    "getType sygusEnv0 (fixturePlaceholder funF) = FunctionType [IntType] IntType"
    by (simp_all add: sygusEnv0_def funF_def fixturePlaceholder_def)
  ultimately show ?thesis
    using checkedSolver_reached fixture_solutions by simp
qed

end
